theory Spec2Isabelle
  imports Main "HOL-Library.Word"
begin

unbundle bit_operations_syntax

section \<open>Printing redirection (include/printing.h)\<close>

text \<open>
  The header keeps one static table \<open>fns\<close> of five function pointers.  A C function
  pointer is modelled by an optional function name: \<open>None\<close> is \<open>nullptr\<close>, the four
  default printers and \<open>flush_stdout\<close> are constructors of their own, and any function
  supplied by a caller is a numbered constructor.  The three pointer types of the
  struct (\<open>void (const char* )\<close>, \<open>void (const char*, va_list)\<close>, \<open>void (void)\<close>) are
  three datatypes, so a pointer of one type cannot be stored in a field of another.
\<close>

datatype message_fn = print_message_to_stdout | print_message_to_stderr | user_message_fn nat

datatype format_fn = fprint_message_to_stdout | fprint_message_to_stderr | user_format_fn nat

datatype flush_fn = flush_stdout | user_flush_fn nat

record print_fns =
  print_message_fn :: "message_fn option"
  print_error_fn :: "message_fn option"
  fprint_message_fn :: "format_fn option"
  fprint_error_fn :: "format_fn option"
  flush_message_fn :: "flush_fn option"

text \<open>The static initialiser of \<open>fns\<close>: everything goes to standard output.\<close>

definition initial_fns :: print_fns where
  "initial_fns =
     \<lparr>print_message_fn = Some print_message_to_stdout,
      print_error_fn = Some print_message_to_stdout,
      fprint_message_fn = Some fprint_message_to_stdout,
      fprint_error_fn = Some fprint_message_to_stdout,
      flush_message_fn = Some flush_stdout\<rparr>"

text \<open>
  The three redirection functions assign the five fields one after the other; the
  model takes the table and returns the updated one.
\<close>

definition redirect_output_stderr :: "print_fns \<Rightarrow> print_fns" where
  "redirect_output_stderr fns =
     fns\<lparr>print_message_fn := Some print_message_to_stdout\<rparr>
        \<lparr>print_error_fn := Some print_message_to_stderr\<rparr>
        \<lparr>fprint_message_fn := Some fprint_message_to_stdout\<rparr>
        \<lparr>fprint_error_fn := Some fprint_message_to_stderr\<rparr>
        \<lparr>flush_message_fn := Some flush_stdout\<rparr>"

definition redirect_output_stdout :: "print_fns \<Rightarrow> print_fns" where
  "redirect_output_stdout fns =
     fns\<lparr>print_message_fn := Some print_message_to_stdout\<rparr>
        \<lparr>print_error_fn := Some print_message_to_stdout\<rparr>
        \<lparr>fprint_message_fn := Some fprint_message_to_stdout\<rparr>
        \<lparr>fprint_error_fn := Some fprint_message_to_stdout\<rparr>
        \<lparr>flush_message_fn := Some flush_stdout\<rparr>"

text \<open>
  \<open>redirect_output\<close> returns its \<open>int\<close> result together with the table: the null test
  comes first and returns 1 before any field is assigned.
\<close>

definition redirect_output ::
  "print_fns \<Rightarrow> message_fn option \<Rightarrow> message_fn option \<Rightarrow> format_fn option \<Rightarrow>
     format_fn option \<Rightarrow> flush_fn option \<Rightarrow> int \<times> print_fns" where
  "redirect_output fns new_print_message_fn new_print_error_fn new_fprint_message_fn
       new_fprint_error_fn new_flush_msg_fn =
     (if new_print_message_fn = None \<or> new_print_error_fn = None
         \<or> new_fprint_message_fn = None \<or> new_fprint_error_fn = None
         \<or> new_flush_msg_fn = None
      then (1, fns)
      else (0, fns\<lparr>print_message_fn := new_print_message_fn\<rparr>
                  \<lparr>print_error_fn := new_print_error_fn\<rparr>
                  \<lparr>fprint_message_fn := new_fprint_message_fn\<rparr>
                  \<lparr>fprint_error_fn := new_fprint_error_fn\<rparr>
                  \<lparr>flush_message_fn := new_flush_msg_fn\<rparr>))"

section \<open>The converter es2ts (unnamed/part_000): the transfer\<close>

type_synonym byte = "8 word"
type_synonym u32 = "32 word"

text \<open>
  Printing of progress and error messages is left out of the model of the converter:
  messages go through the table of printing functions above and never into the
  transport stream writer.  The variables \<open>verbose\<close> and \<open>quiet\<close> are kept, since they are
  passed on to the helpers.
\<close>

subsection \<open>Data of the helper modules\<close>

text \<open>
  The video kinds \<open>VIDEO_H262\<close>, \<open>VIDEO_H264\<close>, \<open>VIDEO_AVS\<close> and \<open>VIDEO_UNKNOWN\<close> are the
  four values the \<open>switch\<close> of \<open>main\<close> distinguishes.
\<close>

datatype video_kind = VIDEO_UNKNOWN | VIDEO_H262 | VIDEO_H264 | VIDEO_AVS

text \<open>
  Modelled from the spec: the stream type bytes of h222.h, which is not among the
  sources (section 3, Stream classification: H.262 is \<open>0x02\<close>, H.264 is \<open>0x1B\<close>, AVS is
  \<open>0x42\<close>), and the default video stream id \<open>0xE0\<close> (section 6, Defaults).
\<close>

definition MPEG2_VIDEO_STREAM_TYPE :: byte where
  "MPEG2_VIDEO_STREAM_TYPE = 0x02"

definition AVC_VIDEO_STREAM_TYPE :: byte where
  "AVC_VIDEO_STREAM_TYPE = 0x1B"

definition AVS_VIDEO_STREAM_TYPE :: byte where
  "AVS_VIDEO_STREAM_TYPE = 0x42"

definition DEFAULT_VIDEO_STREAM_ID :: byte where
  "DEFAULT_VIDEO_STREAM_ID = 0xE0"

text \<open>
  An ES unit as \<open>write_ES_unit_as_TS\<close> uses it: its bytes; \<open>data_len\<close> is their number.
\<close>

record ES_unit =
  data :: "byte list"

definition data_len :: "ES_unit \<Rightarrow> nat" where
  "data_len unit = length (data unit)"

text \<open>
  Modelled from the spec: the elementary stream reader of es.h, which is not among the
  sources.  Section 4.3 gives its contract, \<open>next_unit() \<rightarrow> ESUnit | EOF | Error\<close>: a
  stateful producer of whole ES units.  The state of an open stream is the finite
  sequence of results its further calls will give, a unit (\<open>Inr\<close>) or a read error
  (\<open>Inl\<close>); once the sequence is used up every call reports \<open>EOF\<close>.  The code of a read
  error is positive, \<open>Inl k\<close> standing for the code \<open>k + 1\<close>: a call never returns 0
  without a unit, and the code \<open>EOF\<close> (\<open>-1\<close>) is the result \<open>Read_EOF\<close> alone.
\<close>

record ES =
  upcoming :: "(nat + ES_unit) list"

datatype read_result = Read_unit ES_unit | Read_EOF | Read_error int

definition find_and_build_next_ES_unit :: "ES \<Rightarrow> read_result \<times> ES" where
  "find_and_build_next_ES_unit es =
     (case upcoming es of
        [] \<Rightarrow> (Read_EOF, es)
      | Inl k # rest \<Rightarrow> (Read_error (int k + 1), es\<lparr>upcoming := rest\<rparr>)
      | Inr unit # rest \<Rightarrow> (Read_unit unit, es\<lparr>upcoming := rest\<rparr>))"

datatype TS_WRITER_TYPE = TS_W_STDOUT | TS_W_FILE | TS_W_TCP

text \<open>
  The functions of the other modules that \<open>main\<close> and \<open>transfer_data\<close> call are not
  among the sources.  They are parameters of the model, collected in one record; \<open>'w\<close>
  is the state of an open transport stream writer.  A helper that returns an error
  code and changes the writer returns the pair of both; a helper that fills a result
  variable on success returns \<open>None\<close> on error.
  \<^item> \<open>int_value arg positive base\<close>, \<open>unsigned_value arg base\<close> read a number;
  \<^item> \<open>host_value arg port\<close> reads \<open><host>\<close> or \<open><host>:<port>\<close>, from the port so far;
  \<^item> \<open>open_elementary_stream name\<close> opens the named file, standard input for \<open>None\<close>;
  \<^item> \<open>decide_ES_file_video_type es verbose\<close> looks at the start of the input and leaves
    the stream where it was;
  \<^item> \<open>tswrite_open how name port quiet\<close>, \<open>tswrite_close output quiet\<close>;
  \<^item> \<open>write_TS_program_data output transport_stream_id program_number pmt_pid pid
    stream_type\<close> and \<open>write_ES_as_TS_PES_packet output data pid stream_id\<close>.
\<close>

record 'w env =
  int_value :: "string \<Rightarrow> bool \<Rightarrow> nat \<Rightarrow> int option"
  unsigned_value :: "string \<Rightarrow> nat \<Rightarrow> u32 option"
  host_value :: "string \<Rightarrow> int \<Rightarrow> (string \<times> int) option"
  open_elementary_stream :: "string option \<Rightarrow> ES option"
  decide_ES_file_video_type :: "ES \<Rightarrow> bool \<Rightarrow> video_kind option"
  tswrite_open :: "TS_WRITER_TYPE \<Rightarrow> string option \<Rightarrow> int \<Rightarrow> bool \<Rightarrow> 'w option"
  tswrite_close :: "'w \<Rightarrow> bool \<Rightarrow> int"
  write_TS_program_data :: "'w \<Rightarrow> u32 \<Rightarrow> u32 \<Rightarrow> u32 \<Rightarrow> u32 \<Rightarrow> byte \<Rightarrow> int \<times> 'w"
  write_ES_as_TS_PES_packet :: "'w \<Rightarrow> byte list \<Rightarrow> u32 \<Rightarrow> byte \<Rightarrow> int \<times> 'w"

subsection \<open>write_ES_unit_as_TS and transfer_data\<close>

definition write_ES_unit_as_TS :: "'w env \<Rightarrow> 'w \<Rightarrow> ES_unit \<Rightarrow> u32 \<Rightarrow> int \<times> 'w" where
  "write_ES_unit_as_TS env output unit video_pid =
     (let (err, output) =
            write_ES_as_TS_PES_packet env output (data unit) video_pid DEFAULT_VIDEO_STREAM_ID
      in if err \<noteq> 0 then (err, output) else (0, output))"

text \<open>
  The \<open>for (;;)\<close> loop of \<open>transfer_data\<close>.  It returns the error code, the writer, the
  stream and \<open>count\<close>; the flag tells a \<open>break\<close> (\<open>True\<close>: the code after the loop runs)
  from a \<open>return\<close> inside the loop.  \<open>count\<close> is a C \<open>int\<close>; the model counts in \<open>int\<close>
  without a bound, so it says nothing of a run over more than \<open>2^31 - 1\<close> units.
\<close>

function transfer_loop ::
  "'w env \<Rightarrow> ES \<Rightarrow> 'w \<Rightarrow> u32 \<Rightarrow> int \<Rightarrow> int \<Rightarrow> bool \<Rightarrow> bool \<times> int \<times> 'w \<times> ES \<times> int" where
  "transfer_loop env es output video_pid max2 count verbose =
     (case find_and_build_next_ES_unit es of
        (Read_EOF, es) \<Rightarrow> (True, 0, output, es, count)
      | (Read_error err, es) \<Rightarrow> (False, err, output, es, count)
      | (Read_unit unit, es) \<Rightarrow>
          (let count = count + 1;
               (err, output) = write_ES_unit_as_TS env output unit video_pid
           in if err \<noteq> 0 then (False, err, output, es, count)
              else if max2 > 0 \<and> count \<ge> max2 then (True, 0, output, es, count)
              else transfer_loop env es output video_pid max2 count verbose))"
  by pat_completeness auto
termination
  by (relation "measure (\<lambda>(env, es, output, video_pid, max2, count, verbose). length (upcoming es))")
     (auto simp: find_and_build_next_ES_unit_def split: list.splits sum.splits)

text \<open>
  \<open>transfer_data\<close> returns its \<open>int\<close> result with the writer, the stream and the number
  of units counted.
\<close>

definition transfer_data ::
  "'w env \<Rightarrow> ES \<Rightarrow> 'w \<Rightarrow> u32 \<Rightarrow> u32 \<Rightarrow> byte \<Rightarrow> int \<Rightarrow> bool \<Rightarrow> bool \<Rightarrow> int \<times> 'w \<times> ES \<times> int" where
  "transfer_data env es output pmt_pid video_pid stream_type max2 verbose quiet =
     (let (err, output) = write_TS_program_data env output 1 1 pmt_pid video_pid stream_type
      in if err \<noteq> 0 then (1, output, es, 0)
         else (let (finished, err, output, es, count) =
                     transfer_loop env es output video_pid max2 0 verbose
               in if finished then (0, output, es, count) else (err, output, es, count)))"

section \<open>The helper modules, from the specification\<close>

text \<open>
  The modules that read the elementary stream and write the transport stream
  (es, pes, ts, tswrite) are not among the sources.  This section models them from
  the specification, component by component; the claims that speak of bytes of the
  output are settled against these definitions.
\<close>

subsection \<open>StartcodeScanner and ESUnitBuilder (sections 4.2 and 4.3)\<close>

text \<open>
  Modelled from the spec: the startcode scanner.  A startcode is the three-byte prefix
  \<open>00 00 01\<close> followed by the one-byte identifier; the scanner consumes the four bytes,
  so a prefix that ends the input without an identifier is not a startcode.
\<close>

fun at_startcode :: "byte list \<Rightarrow> bool" where
  "at_startcode (a # b # c # d # rest) = (a = 0 \<and> b = 0 \<and> c = 1)"
| "at_startcode _ = False"

text \<open>The offset of the first startcode; the length of the input when there is none.\<close>

fun first_startcode :: "byte list \<Rightarrow> nat" where
  "first_startcode [] = 0"
| "first_startcode (b # bs) = (if at_startcode (b # bs) then 0 else Suc (first_startcode bs))"

text \<open>
  Modelled from the spec: the first call of the unit builder discards the bytes before
  the first startcode.
\<close>

fun skip_to_startcode :: "byte list \<Rightarrow> byte list" where
  "skip_to_startcode [] = []"
| "skip_to_startcode (b # bs) = (if at_startcode (b # bs) then b # bs else skip_to_startcode bs)"

text \<open>
  Modelled from the spec: the bytes of a unit after its startcode run up to, but not
  including, the next startcode prefix or the end of the stream.  The result is these
  bytes and the input from the next startcode on.
\<close>

fun until_startcode :: "byte list \<Rightarrow> byte list \<times> byte list" where
  "until_startcode [] = ([], [])"
| "until_startcode (b # bs) =
     (if at_startcode (b # bs) then ([], b # bs)
      else (let (body, rest) = until_startcode bs in (b # body, rest)))"

lemma until_startcode_length: "length (snd (until_startcode bs)) \<le> length bs"
  by (induction bs rule: until_startcode.induct) (auto split: prod.splits)

text \<open>
  Modelled from the spec: the units of an input that stands at a startcode.  Each unit
  begins with the four bytes \<open>00 00 01 <sc>\<close> and ends immediately before the following
  startcode, or at the end of the input.
\<close>

function build_units :: "byte list \<Rightarrow> ES_unit list" where
  "build_units bs =
     (case bs of
        a # b # c # d # rest \<Rightarrow>
          (if at_startcode bs then
             (let (body, rest') = until_startcode rest
              in \<lparr>data = a # b # c # d # body\<rparr> # build_units rest')
           else [])
      | _ \<Rightarrow> [])"
  by pat_completeness auto
termination
proof (relation "measure length", goal_cases)
  case 1
  show ?case by simp
next
  case (2 bs a as b bs' c cs d rest pr body rest')
  then have "rest' = snd (until_startcode rest)"
    by (metis snd_conv)
  then show ?case
    using until_startcode_length [of rest] 2 by simp
qed

definition es_units :: "byte list \<Rightarrow> ES_unit list" where
  "es_units input = build_units (skip_to_startcode input)"

text \<open>
  Modelled from the spec: an elementary stream opened on the bytes \<open>input\<close>; its reader
  will give the units of the input in order, then \<open>EOF\<close>.
\<close>

definition es_of_bytes :: "byte list \<Rightarrow> ES" where
  "es_of_bytes input = \<lparr>upcoming = map Inr (es_units input)\<rparr>"

subsection \<open>PESPacker (section 4.5)\<close>

text \<open>
  Modelled from the spec: one ES unit in one PES packet, behind a header of nine bytes
  without timestamps.  \<open>PES_packet_length\<close> counts the three header bytes after it and
  the payload, and is written as 0 when that exceeds 65535.
\<close>

definition pack_pes :: "byte \<Rightarrow> byte list \<Rightarrow> byte list" where
  "pack_pes stream_id payload =
     (let n = length payload + 3;
          len = (if n > 65535 then 0 else n)
      in [0x00, 0x00, 0x01, stream_id, of_nat (len div 256), of_nat (len mod 256),
          0x80, 0x00, 0x00] @ payload)"

subsection \<open>TSPacketizer (section 4.6)\<close>

text \<open>
  Modelled from the spec: the writer owns the byte sink and the continuity counter
  table, a counter of four bits for each PID, all 0 when the output is opened.
\<close>

record TS_writer =
  sink :: "byte list"
  continuity :: "u32 \<Rightarrow> 4 word"

definition new_TS_writer :: TS_writer where
  "new_TS_writer = \<lparr>sink = [], continuity = (\<lambda>pid. 0)\<rparr>"

text \<open>
  Modelled from the spec: the four header bytes.  \<open>afc\<close> is the adaptation field
  control, \<open>1\<close> for payload only and \<open>3\<close> for adaptation field and payload.
\<close>

definition ts_header :: "u32 \<Rightarrow> bool \<Rightarrow> byte \<Rightarrow> 4 word \<Rightarrow> byte list" where
  "ts_header pid pusi afc cc =
     [0x47,
      (if pusi then 0x40 else 0x00) OR ucast (drop_bit 8 pid AND 0x1F),
      ucast (pid AND 0xFF),
      push_bit 4 afc OR ucast cc]"

text \<open>
  Modelled from the spec: a stuffing-only adaptation field that takes \<open>n\<close> bytes of the
  packet, \<open>1 \<le> n\<close>: the length byte \<open>n - 1\<close>, then, unless that is 0, one flags byte
  \<open>0x00\<close> and \<open>0xFF\<close> stuffing.  With \<open>n = 184 - payload_remaining\<close> the length byte is the
  \<open>184 - payload_remaining - 1\<close> of the specification.  Its special case, the single
  byte \<open>0x00\<close> as the entire adaptation field, is the length byte 0, which this formula
  gives when one byte is left to fill (183 bytes of payload remain); read as "one
  byte of payload remains" it would contradict the formula and the packet size.
\<close>

definition adaptation_stuffing :: "nat \<Rightarrow> byte list" where
  "adaptation_stuffing n =
     (if n = 0 then []
      else if n = 1 then [0x00]
      else of_nat (n - 1) # 0x00 # replicate (n - 2) 0xFF)"

text \<open>Modelled from the spec: one packet that carries \<open>chunk\<close>, at most 184 bytes.\<close>

definition ts_packet :: "u32 \<Rightarrow> bool \<Rightarrow> 4 word \<Rightarrow> byte list \<Rightarrow> byte list" where
  "ts_packet pid pusi cc chunk =
     (if length chunk = 184 then ts_header pid pusi 1 cc @ chunk
      else ts_header pid pusi 3 cc @ adaptation_stuffing (184 - length chunk) @ chunk)"

text \<open>
  Modelled from the spec: a packet is committed to the sink, then the continuity
  counter of its PID is incremented modulo 16.
\<close>

definition commit_packet :: "TS_writer \<Rightarrow> u32 \<Rightarrow> byte list \<Rightarrow> TS_writer" where
  "commit_packet w pid packet =
     w\<lparr>sink := sink w @ packet,
       continuity := (continuity w)(pid := continuity w pid + 1)\<rparr>"

text \<open>
  Modelled from the spec: a byte sequence is cut into packets of the given PID, with
  \<open>PUSI = 1\<close> on the first packet and \<open>PUSI = 0\<close> thereafter.
\<close>

function write_fragments :: "TS_writer \<Rightarrow> u32 \<Rightarrow> bool \<Rightarrow> byte list \<Rightarrow> TS_writer" where
  "write_fragments w pid first bytes =
     (if bytes = [] then w
      else write_fragments
             (commit_packet w pid (ts_packet pid first (continuity w pid) (take 184 bytes)))
             pid False (drop 184 bytes))"
  by pat_completeness auto
termination
  by (relation "measure (\<lambda>(w, pid, first, bytes). length bytes)") auto

text \<open>
  Modelled from the spec: \<open>TSPacketizer.write_pes\<close> after \<open>PESPacker.pack\<close>, the part of
  \<open>write_ES_as_TS_PES_packet\<close>.  The specification gives these components no failure
  of their own, so the result code is 0.
\<close>

definition write_pes :: "TS_writer \<Rightarrow> byte list \<Rightarrow> u32 \<Rightarrow> byte \<Rightarrow> int \<times> TS_writer" where
  "write_pes w unit_bytes pid stream_id =
     (0, write_fragments w pid True (pack_pes stream_id unit_bytes))"

subsection \<open>PSITables (section 4.7)\<close>

text \<open>
  Modelled from the spec: CRC-32/MPEG-2, polynomial \<open>0x04C11DB7\<close>, initial value
  \<open>0xFFFFFFFF\<close>, most significant bit first, no reflection and no final xor.
\<close>

definition crc_shift :: "u32 \<Rightarrow> u32" where
  "crc_shift c = (if bit c 31 then push_bit 1 c XOR 0x04C11DB7 else push_bit 1 c)"

definition crc_byte :: "u32 \<Rightarrow> byte \<Rightarrow> u32" where
  "crc_byte c b = (crc_shift ^^ 8) (c XOR push_bit 24 (ucast b))"

definition crc32_mpeg2 :: "byte list \<Rightarrow> u32" where
  "crc32_mpeg2 bs = foldl crc_byte 0xFFFFFFFF bs"

definition with_crc :: "byte list \<Rightarrow> byte list" where
  "with_crc bs =
     (let c = crc32_mpeg2 bs
      in bs @ [ucast (drop_bit 24 c), ucast (drop_bit 16 c), ucast (drop_bit 8 c), ucast c])"

text \<open>
  Modelled from the spec: the PAT section, one program mapped to \<open>pmt_pid\<close>; version 0,
  current, section 0 of 0.  The reserved bits, which the specification leaves out,
  are set as H.222.0 has them; the section length is 13.
\<close>

definition pat_section :: "u32 \<Rightarrow> u32 \<Rightarrow> u32 \<Rightarrow> byte list" where
  "pat_section transport_stream_id program_number pmt_pid =
     with_crc
       [0x00, 0xB0, 0x0D,
        ucast (drop_bit 8 transport_stream_id), ucast transport_stream_id,
        0xC1, 0x00, 0x00,
        ucast (drop_bit 8 program_number), ucast program_number,
        0xE0 OR ucast (drop_bit 8 pmt_pid AND 0x1F), ucast (pmt_pid AND 0xFF)]"

text \<open>
  Modelled from the spec: the PMT section, with \<open>PCR_PID = video_pid\<close>, no program
  information and the one stream entry \<open>(stream_type, video_pid, 0)\<close>; the section
  length is 18.  The stream type is byte 12 of the section.
\<close>

definition pmt_section :: "u32 \<Rightarrow> u32 \<Rightarrow> byte \<Rightarrow> byte list" where
  "pmt_section program_number video_pid stream_type =
     with_crc
       [0x02, 0xB0, 0x12,
        ucast (drop_bit 8 program_number), ucast program_number,
        0xC1, 0x00, 0x00,
        0xE0 OR ucast (drop_bit 8 video_pid AND 0x1F), ucast (video_pid AND 0xFF),
        0xF0, 0x00,
        stream_type,
        0xE0 OR ucast (drop_bit 8 video_pid AND 0x1F), ucast (video_pid AND 0xFF),
        0xF0, 0x00]"

text \<open>
  Modelled from the spec: a section goes into a single packet with \<open>PUSI = 1\<close>, behind
  a pointer field of 0.  The specification does not say how the rest of the packet
  is filled; the model fills it with \<open>0xFF\<close> after the section, as H.222.0 has it.
\<close>

definition psi_packet :: "u32 \<Rightarrow> 4 word \<Rightarrow> byte list \<Rightarrow> byte list" where
  "psi_packet pid cc section =
     ts_header pid True 1 cc @ [0x00] @ section @ replicate (183 - length section) 0xFF"

definition write_section :: "TS_writer \<Rightarrow> u32 \<Rightarrow> byte list \<Rightarrow> TS_writer" where
  "write_section w pid section = commit_packet w pid (psi_packet pid (continuity w pid) section)"

text \<open>
  Modelled from the spec: the PAT on PID 0, then the PMT on \<open>pmt_pid\<close>, the part of
  \<open>write_TS_program_data\<close>.  The result code is 0.
\<close>

definition write_psi ::
  "TS_writer \<Rightarrow> u32 \<Rightarrow> u32 \<Rightarrow> u32 \<Rightarrow> u32 \<Rightarrow> byte \<Rightarrow> int \<times> TS_writer" where
  "write_psi w transport_stream_id program_number pmt_pid pid stream_type =
     (let w = write_section w 0 (pat_section transport_stream_id program_number pmt_pid);
          w = write_section w pmt_pid (pmt_section program_number pid stream_type)
      in (0, w))"

subsection \<open>The command line numbers (section 6)\<close>

text \<open>
  Modelled from the spec: a PID is given in decimal or in hexadecimal behind \<open>0x\<close>.
\<close>

definition digit_of :: "char \<Rightarrow> int option" where
  "digit_of c =
     (let n = of_char c :: int
      in if 48 \<le> n \<and> n \<le> 57 then Some (n - 48)
         else if 97 \<le> n \<and> n \<le> 102 then Some (n - 87)
         else if 65 \<le> n \<and> n \<le> 70 then Some (n - 55)
         else None)"

fun digits_value :: "int \<Rightarrow> int \<Rightarrow> string \<Rightarrow> int option" where
  "digits_value base acc [] = Some acc"
| "digits_value base acc (c # cs) =
     (case digit_of c of
        None \<Rightarrow> None
      | Some d \<Rightarrow> if d < base then digits_value base (acc * base + d) cs else None)"

definition number_of_string :: "string \<Rightarrow> int option" where
  "number_of_string s =
     (if s = [] then None
      else if take 2 s = ''0x'' \<and> drop 2 s \<noteq> [] then digits_value 16 0 (drop 2 s)
      else digits_value 10 0 s)"

definition read_unsigned :: "string \<Rightarrow> nat \<Rightarrow> u32 option" where
  "read_unsigned s base =
     (case number_of_string s of
        None \<Rightarrow> None
      | Some n \<Rightarrow> if n < 2 ^ 32 then Some (word_of_int n) else None)"

text \<open>Modelled from the spec: the number of \<open>-max\<close> is given in decimal.\<close>

definition read_int :: "string \<Rightarrow> bool \<Rightarrow> nat \<Rightarrow> int option" where
  "read_int s positive base =
     (case digits_value 10 0 s of
        None \<Rightarrow> None
      | Some n \<Rightarrow> if s \<noteq> [] \<and> n < 2 ^ 31 then Some n else None)"

subsection \<open>The helper modules put together\<close>

text \<open>
  Modelled from the spec: the helpers of the converter as the specification has them.
  \<open>files\<close> gives the bytes of each input file that exists and \<open>stdin\<close> the bytes on
  standard input; the output opens with an empty sink; type detection, \<open>-host\<close> and
  the closing of the output stay parameters (\<open>detect\<close>, \<open>host\<close>, \<open>close_result\<close>).
\<close>

definition spec_env ::
  "(string \<Rightarrow> byte list option) \<Rightarrow> byte list \<Rightarrow> (ES \<Rightarrow> bool \<Rightarrow> video_kind option) \<Rightarrow>
     (string \<Rightarrow> int \<Rightarrow> (string \<times> int) option) \<Rightarrow> (TS_writer \<Rightarrow> bool \<Rightarrow> int) \<Rightarrow> TS_writer env" where
  "spec_env files stdin detect host close_result =
     \<lparr>int_value = read_int,
      unsigned_value = read_unsigned,
      host_value = host,
      open_elementary_stream =
        (\<lambda>name. case name of
                   None \<Rightarrow> Some (es_of_bytes stdin)
                 | Some n \<Rightarrow> map_option es_of_bytes (files n)),
      decide_ES_file_video_type = detect,
      tswrite_open = (\<lambda>how name port quiet. Some new_TS_writer),
      tswrite_close = close_result,
      write_TS_program_data = write_psi,
      write_ES_as_TS_PES_packet = write_pes\<rparr>"

subsection \<open>Reading a transport stream back\<close>

text \<open>
  The receiving side, as far as the round trip needs it: the output cut into packets
  of 188 bytes, the PID and the PUSI bit of a packet, and its payload behind the
  header and the adaptation field.
\<close>

function ts_packets :: "byte list \<Rightarrow> byte list list" where
  "ts_packets bs = (if length bs < 188 then [] else take 188 bs # ts_packets (drop 188 bs))"
  by pat_completeness auto
termination
  by (relation "measure length") auto

fun packet_pid :: "byte list \<Rightarrow> u32" where
  "packet_pid (s # b1 # b2 # rest) = push_bit 8 (ucast (b1 AND 0x1F)) OR ucast b2"
| "packet_pid _ = 0"

fun packet_pusi :: "byte list \<Rightarrow> bool" where
  "packet_pusi (s # b1 # rest) = bit b1 6"
| "packet_pusi _ = False"

fun packet_payload :: "byte list \<Rightarrow> byte list" where
  "packet_payload (s # b1 # b2 # b3 # rest) =
     (let afc = drop_bit 4 b3 AND 0x03
      in if afc = 1 then rest
         else if afc = 3 then (case rest of [] \<Rightarrow> [] | n # rest' \<Rightarrow> drop (unat n) rest')
         else [])"
| "packet_payload _ = []"

text \<open>
  The packets of one PID are put together into PES packets: a packet with \<open>PUSI = 1\<close>
  starts a PES packet, the packets after it continue it.  The flag of a group tells
  whether it starts with such a packet; payload before the first start is dropped.
\<close>

definition join_packet :: "byte list \<Rightarrow> (bool \<times> byte list) list \<Rightarrow> (bool \<times> byte list) list" where
  "join_packet p groups =
     (case groups of
        (False, g) # groups' \<Rightarrow> (packet_pusi p, packet_payload p @ g) # groups'
      | _ \<Rightarrow> (packet_pusi p, packet_payload p) # groups)"

definition pes_packets_of :: "u32 \<Rightarrow> byte list \<Rightarrow> byte list list" where
  "pes_packets_of pid bs =
     map snd (filter fst (foldr join_packet (filter (\<lambda>p. packet_pid p = pid) (ts_packets bs)) []))"

text \<open>
  A PES packet without its header: the nine fixed bytes and the optional fields that
  \<open>PES_header_data_length\<close> counts.
\<close>

fun strip_pes_header :: "byte list \<Rightarrow> byte list" where
  "strip_pes_header (p0 # p1 # p2 # sid # l1 # l2 # f1 # f2 # hl # rest) = drop (unat hl) rest"
| "strip_pes_header _ = []"

definition es_of_ts :: "u32 \<Rightarrow> byte list \<Rightarrow> byte list" where
  "es_of_ts pid bs = concat (map strip_pes_header (pes_packets_of pid bs))"

subsection \<open>Auxiliary functions for the proofs\<close>

text \<open>
  The packets that \<open>write_fragments\<close> appends for a byte sequence, from the continuity
  counter \<open>cc\<close> on, as a list; the packets of a sequence of ES units; and the writer
  after the helper \<open>write_ES_as_TS_PES_packet\<close> has been called, in order, once on the
  data of each unit of a sequence, with the video stream id.  These functions only
  serve to state and prove properties of the model; none of them calls a function of
  the converter.
\<close>

function fragments :: "u32 \<Rightarrow> bool \<Rightarrow> 4 word \<Rightarrow> byte list \<Rightarrow> byte list list" where
  "fragments pid first cc bytes =
     (if bytes = [] then []
      else ts_packet pid first cc (take 184 bytes) # fragments pid False (cc + 1) (drop 184 bytes))"
  by pat_completeness auto
termination
  by (relation "measure (\<lambda>(pid, first, cc, bytes). length bytes)") auto

fun units_packets :: "u32 \<Rightarrow> 4 word \<Rightarrow> ES_unit list \<Rightarrow> byte list list" where
  "units_packets pid cc [] = []"
| "units_packets pid cc (u # us) =
     (let ps = fragments pid True cc (pack_pes DEFAULT_VIDEO_STREAM_ID (data u))
      in ps @ units_packets pid (cc + of_nat (length ps)) us)"

fun write_units :: "'w env \<Rightarrow> 'w \<Rightarrow> u32 \<Rightarrow> ES_unit list \<Rightarrow> 'w" where
  "write_units env w pid [] = w"
| "write_units env w pid (u # us) =
     write_units env
       (snd (write_ES_as_TS_PES_packet env w (data u) pid DEFAULT_VIDEO_STREAM_ID)) pid us"

section \<open>The converter es2ts: main\<close>

text \<open>
  The local variables of \<open>main\<close> that the command line sets, with the table of printing
  functions that \<open>-stdout\<close> and \<open>-err\<close> redirect.  A \<open>char*\<close> that may be \<open>nullptr\<close> is an
  optional string.
\<close>

record main_vars =
  use_stdin :: bool
  use_stdout :: bool
  use_tcpip :: bool
  port :: int
  input_name :: "string option"
  output_name :: "string option"
  had_input_name :: bool
  had_output_name :: bool
  verbose :: bool
  quiet :: bool
  max2 :: int
  video_pid :: u32
  pmt_pid :: u32
  video_type :: video_kind
  force_stream_type :: bool
  fns :: print_fns

definition initial_vars :: main_vars where
  "initial_vars =
     \<lparr>use_stdin = False, use_stdout = False, use_tcpip = False, port = 88,
      input_name = None, output_name = None,
      had_input_name = False, had_output_name = False,
      verbose = False, quiet = False, max2 = 0, video_pid = 0x68, pmt_pid = 0x66,
      video_type = VIDEO_H262, force_stream_type = False, fns = initial_fns\<rparr>"

text \<open>
  The chain of \<open>strcmp\<close> tests on one argument, in the order of the source: which
  branch of the loop body the argument takes.  \<open>argv[ii][0] == '-'\<close> is false for the
  empty string.
\<close>

datatype switch =
    Sw_help | Sw_h264 | Sw_h262 | Sw_avs | Sw_stdin | Sw_stdout | Sw_err | Sw_host
  | Sw_verbose | Sw_quiet | Sw_max | Sw_pid | Sw_pmt | Sw_unrecognised | No_switch

definition which_switch :: "string \<Rightarrow> switch" where
  "which_switch arg =
     (if arg \<noteq> [] \<and> hd arg = CHR ''-'' then
        if arg = ''--help'' \<or> arg = ''-help'' \<or> arg = ''-h'' then Sw_help
        else if arg = ''-avc'' \<or> arg = ''-h264'' then Sw_h264
        else if arg = ''-h262'' then Sw_h262
        else if arg = ''-avs'' then Sw_avs
        else if arg = ''-stdin'' then Sw_stdin
        else if arg = ''-stdout'' then Sw_stdout
        else if arg = ''-err'' then Sw_err
        else if arg = ''-host'' then Sw_host
        else if arg = ''-verbose'' \<or> arg = ''-v'' then Sw_verbose
        else if arg = ''-quiet'' \<or> arg = ''-q'' then Sw_quiet
        else if arg = ''-max'' \<or> arg = ''-m'' then Sw_max
        else if arg = ''-pid'' then Sw_pid
        else if arg = ''-pmt'' then Sw_pmt
        else Sw_unrecognised
      else No_switch)"

text \<open>
  The body of the \<open>while (ii < argc)\<close> loop for the argument \<open>argv[ii]\<close>, with the
  arguments after it.  \<open>Inl code\<close> is a \<open>return code\<close> from inside the loop; otherwise
  the result is the variables after the body and whether the body took the value
  \<open>argv[ii + 1]\<close> as well (the \<open>ii++\<close> inside a branch).  The macro \<open>CHECKARG\<close> of misc.h
  is not among the sources; it is taken to return 1 when the switch is the last
  argument, the one behaviour under which the read of \<open>argv[ii + 1]\<close> that follows it
  is defined.
\<close>

definition parse_step :: "'w env \<Rightarrow> string \<Rightarrow> string list \<Rightarrow> main_vars \<Rightarrow> int + main_vars \<times> bool" where
  "parse_step env arg rest v =
     (case which_switch arg of
        Sw_help \<Rightarrow> Inl 0
      | Sw_h264 \<Rightarrow> Inr (v\<lparr>force_stream_type := True, video_type := VIDEO_H264\<rparr>, False)
      | Sw_h262 \<Rightarrow> Inr (v\<lparr>force_stream_type := True, video_type := VIDEO_H262\<rparr>, False)
      | Sw_avs \<Rightarrow> Inr (v\<lparr>force_stream_type := True, video_type := VIDEO_AVS\<rparr>, False)
      | Sw_stdin \<Rightarrow> Inr (v\<lparr>had_input_name := True, use_stdin := True\<rparr>, False)
      | Sw_stdout \<Rightarrow>
          Inr (v\<lparr>had_output_name := True, use_stdout := True,
                 fns := redirect_output_stderr (fns v)\<rparr>, False)
      | Sw_err \<Rightarrow>
          (case rest of
             [] \<Rightarrow> Inl 1
           | val # rest' \<Rightarrow>
               if val = ''stderr'' then Inr (v\<lparr>fns := redirect_output_stderr (fns v)\<rparr>, True)
               else if val = ''stdout'' then
                 Inr (v\<lparr>fns := redirect_output_stdout (fns v)\<rparr>, True)
               else Inl 1)
      | Sw_host \<Rightarrow>
          (case rest of
             [] \<Rightarrow> Inl 1
           | val # rest' \<Rightarrow>
               (case host_value env val (port v) of
                  None \<Rightarrow> Inl 1
                | Some (name, p) \<Rightarrow>
                    Inr (v\<lparr>output_name := Some name, port := p,
                           had_output_name := True, use_tcpip := True\<rparr>, True)))
      | Sw_verbose \<Rightarrow> Inr (v\<lparr>verbose := True, quiet := False\<rparr>, False)
      | Sw_quiet \<Rightarrow> Inr (v\<lparr>verbose := False, quiet := True\<rparr>, False)
      | Sw_max \<Rightarrow>
          (case rest of
             [] \<Rightarrow> Inl 1
           | val # rest' \<Rightarrow>
               (case int_value env val True 10 of
                  None \<Rightarrow> Inl 1
                | Some n \<Rightarrow> Inr (v\<lparr>max2 := n\<rparr>, True)))
      | Sw_pid \<Rightarrow>
          (case rest of
             [] \<Rightarrow> Inl 1
           | val # rest' \<Rightarrow>
               (case unsigned_value env val 0 of
                  None \<Rightarrow> Inl 1
                | Some n \<Rightarrow> Inr (v\<lparr>video_pid := n\<rparr>, True)))
      | Sw_pmt \<Rightarrow>
          (case rest of
             [] \<Rightarrow> Inl 1
           | val # rest' \<Rightarrow>
               (case unsigned_value env val 0 of
                  None \<Rightarrow> Inl 1
                | Some n \<Rightarrow> Inr (v\<lparr>pmt_pid := n\<rparr>, True)))
      | Sw_unrecognised \<Rightarrow> Inl 1
      | No_switch \<Rightarrow>
          if had_input_name v \<and> had_output_name v then Inl 1
          else if had_input_name v then
            Inr (v\<lparr>output_name := Some arg, had_output_name := True\<rparr>, False)
          else Inr (v\<lparr>input_name := Some arg, had_input_name := True\<rparr>, False))"

text \<open>
  The loop itself, on the arguments from \<open>argv[ii]\<close> on: \<open>Inr\<close> holds the variables when
  the loop ends.
\<close>

function parse_args :: "'w env \<Rightarrow> string list \<Rightarrow> main_vars \<Rightarrow> int + main_vars" where
  "parse_args env [] v = Inr v"
| "parse_args env (arg # rest) v =
     (case parse_step env arg rest v of
        Inl code \<Rightarrow> Inl code
      | Inr (v', took_value) \<Rightarrow> parse_args env (if took_value then tl rest else rest) v')"
  by pat_completeness auto
termination
  by (relation "measure (\<lambda>(env, args, v). length args)") auto

text \<open>
  What a run of \<open>main\<close> shows to the outside: its exit code, the calls it made to the
  stream reader and the transport stream writer, in order, and the writer as the
  run left it, \<open>None\<close> when the writer was never opened.
\<close>

datatype call =
    Call_open_elementary_stream "string option"
  | Call_decide_ES_file_video_type
  | Call_close_elementary_stream
  | Call_tswrite_open TS_WRITER_TYPE "string option" int
  | Call_transfer_data u32 u32 byte int
  | Call_tswrite_close

record 'w outcome =
  exit_code :: int
  calls :: "call list"
  final_output :: "'w option"

text \<open>
  The \<open>switch (video_type)\<close> of \<open>main\<close>: the stream type for the three known kinds,
  \<open>None\<close> for the case \<open>VIDEO_UNKNOWN\<close>, which closes the input and returns 1.
\<close>

definition switch_video_type :: "video_kind \<Rightarrow> byte option" where
  "switch_video_type vtype =
     (case vtype of
        VIDEO_H262 \<Rightarrow> Some MPEG2_VIDEO_STREAM_TYPE
      | VIDEO_H264 \<Rightarrow> Some AVC_VIDEO_STREAM_TYPE
      | VIDEO_AVS \<Rightarrow> Some AVS_VIDEO_STREAM_TYPE
      | VIDEO_UNKNOWN \<Rightarrow> None)"

text \<open>
  \<open>main\<close> from the end of the command line loop on: the two checks that names were
  given, \<open>-stdout\<close> forcing \<open>quiet\<close>, the opening of the input, the decision on the video
  type, the \<open>switch\<close> that chooses \<open>stream_type\<close>, the opening of the output, the
  transfer and the two closes.
\<close>

definition run_es2ts :: "'w env \<Rightarrow> main_vars \<Rightarrow> 'w outcome" where
  "run_es2ts env v0 =
     (if \<not> had_input_name v0 then \<lparr>exit_code = 1, calls = [], final_output = None\<rparr>
      else if \<not> had_output_name v0 then \<lparr>exit_code = 1, calls = [], final_output = None\<rparr>
      else
       (let v = (if use_stdout v0 then v0\<lparr>verbose := False, quiet := True\<rparr> else v0);
            name = (if use_stdin v then None else input_name v);
            c1 = [Call_open_elementary_stream name]
        in (case open_elementary_stream env name of
              None \<Rightarrow> \<lparr>exit_code = 1, calls = c1, final_output = None\<rparr>
            | Some es \<Rightarrow>
               (let (decided, c2) =
                      (if force_stream_type v \<or> use_stdin v then (Some (video_type v), c1)
                       else (decide_ES_file_video_type env es (verbose v),
                             c1 @ [Call_decide_ES_file_video_type]))
                in (case decided of
                      None \<Rightarrow>
                        \<lparr>exit_code = 1, calls = c2 @ [Call_close_elementary_stream],
                         final_output = None\<rparr>
                    | Some vtype \<Rightarrow>
                       (case switch_video_type vtype of
                          None \<Rightarrow>
                            \<lparr>exit_code = 1, calls = c2 @ [Call_close_elementary_stream],
                             final_output = None\<rparr>
                        | Some stream_type \<Rightarrow>
                           (let (how, oname, oport) =
                                  (if use_stdout v then (TS_W_STDOUT, None, 0)
                                   else if use_tcpip v then (TS_W_TCP, output_name v, port v)
                                   else (TS_W_FILE, output_name v, 0));
                                c3 = c2 @ [Call_tswrite_open how oname oport]
                            in (case tswrite_open env how oname oport (quiet v) of
                                  None \<Rightarrow>
                                    \<lparr>exit_code = 1, calls = c3 @ [Call_close_elementary_stream],
                                     final_output = None\<rparr>
                                | Some output \<Rightarrow>
                                   (let (err, output, es, count) =
                                          transfer_data env es output (pmt_pid v) (video_pid v)
                                            stream_type (max2 v) (verbose v) (quiet v);
                                        c4 = c3 @ [Call_transfer_data (pmt_pid v) (video_pid v)
                                                     stream_type (max2 v),
                                                   Call_close_elementary_stream,
                                                   Call_tswrite_close];
                                        err2 = tswrite_close env output (quiet v)
                                    in (if err2 \<noteq> 0 then
                                          \<lparr>exit_code = 1, calls = c4,
                                           final_output = Some output\<rparr>
                                        else
                                          \<lparr>exit_code = (if err \<noteq> 0 then 1 else 0),
                                           calls = c4,
                                           final_output = Some output\<rparr>))))))))))"

text \<open>
  \<open>main\<close> on the arguments after the program name: with none (\<open>argc < 2\<close>) it prints the
  usage and returns 0.
\<close>

definition es2ts_main :: "'w env \<Rightarrow> string list \<Rightarrow> 'w outcome" where
  "es2ts_main env args =
     (if args = [] then \<lparr>exit_code = 0, calls = [], final_output = None\<rparr>
      else case parse_args env args initial_vars of
             Inl code \<Rightarrow> \<lparr>exit_code = code, calls = [], final_output = None\<rparr>
           | Inr v \<Rightarrow> run_es2ts env v)"

subsection \<open>Example runs\<close>

text \<open>
  Data for the concrete runs below: the minimal H.262 stream of the specification
  (a sequence header with four bytes and a picture with ten), a file system that
  holds it as \<open>in.es\<close> beside the empty file \<open>empty.es\<close>, and the helpers of the
  specification over this file system, with the type detection as a parameter.
\<close>

definition demo_input :: "byte list" where
  "demo_input =
     [0x00, 0x00, 0x01, 0xB3, 0x16, 0x00, 0xF0, 0x15,
      0x00, 0x00, 0x01, 0x00, 1, 2, 3, 4, 5, 6, 7, 8, 9, 10]"

definition demo_files :: "string \<Rightarrow> byte list option" where
  "demo_files name =
     (if name = ''in.es'' then Some demo_input
      else if name = ''empty.es'' then Some []
      else None)"

text \<open>
  Modelled from the spec: the TypeDetector (section 4.4) on a stream without any
  startcode.  Each of its three tests for a known kind needs a startcode that was
  seen, so such a stream falls under "otherwise Unknown".  For the other streams the
  specification leaves the heuristic open; \<open>detect\<close> stands for it.
\<close>

definition type_detector ::
  "(ES \<Rightarrow> bool \<Rightarrow> video_kind option) \<Rightarrow> ES \<Rightarrow> bool \<Rightarrow> video_kind option" where
  "type_detector detect es vb = (if upcoming es = [] then Some VIDEO_UNKNOWN else detect es vb)"

text \<open>Detectors with one answer, for the example runs.\<close>

definition answer_h262 :: "ES \<Rightarrow> bool \<Rightarrow> video_kind option" where
  "answer_h262 es vb = Some VIDEO_H262"

definition answer_h264 :: "ES \<Rightarrow> bool \<Rightarrow> video_kind option" where
  "answer_h264 es vb = Some VIDEO_H264"

definition answer_unknown :: "ES \<Rightarrow> bool \<Rightarrow> video_kind option" where
  "answer_unknown es vb = Some VIDEO_UNKNOWN"

definition demo_env :: "(ES \<Rightarrow> bool \<Rightarrow> video_kind option) \<Rightarrow> TS_writer env" where
  "demo_env detect = spec_env demo_files demo_input detect (\<lambda>arg p. None) (\<lambda>w q. 0)"

section \<open>Lemmas\<close>

declare transfer_loop.simps [simp del]
declare build_units.simps [simp del]
declare write_fragments.simps [simp del]
declare fragments.simps [simp del]
declare ts_packets.simps [simp del]

subsection \<open>One unit written\<close>

lemma write_ES_unit_as_TS_writer:
  "snd (write_ES_unit_as_TS env w u pid) =
     snd (write_ES_as_TS_PES_packet env w (data u) pid DEFAULT_VIDEO_STREAM_ID)"
  by (simp add: write_ES_unit_as_TS_def split: prod.splits)

lemma write_units_Cons [simp]:
  "write_units env w pid (u # us) =
     write_units env (snd (write_ES_unit_as_TS env w u pid)) pid us"
  by (simp add: write_ES_unit_as_TS_writer)

declare write_units.simps(2) [simp del]

subsection \<open>Header bits\<close>

lemma byte_masks:
  "(0x03 :: byte) = mask 2" "(0x1F :: byte) = mask 5"
  "(0x1F :: u32) = mask 5" "(0xFF :: u32) = mask 8" "(0x1FFF :: u32) = mask 13"
  by (simp_all add: mask_eq_exp_minus_1)

lemma bit_0x40: "bit (0x40 :: 'a::len word) n \<longleftrightarrow> n = 6 \<and> 6 < LENGTH('a)"
proof -
  have "bit (push_bit 6 1 :: 'a word) n \<longleftrightarrow> n = 6 \<and> 6 < LENGTH('a)"
    by (simp only: bit_push_bit_iff bit_1_iff) (auto simp: possible_bit_def)
  then show ?thesis by simp
qed

lemma bit_0x40_nat: "bit (0x40 :: nat) n \<longleftrightarrow> n = 6"
proof -
  have "bit (push_bit 6 1 :: nat) n \<longleftrightarrow> n = 6"
    by (simp only: bit_push_bit_iff bit_1_iff) (auto simp: possible_bit_def)
  then show ?thesis by simp
qed

lemma bit_0x40_int: "bit (0x40 :: int) n \<longleftrightarrow> n = 6"
proof -
  have "bit (push_bit 6 1 :: int) n \<longleftrightarrow> n = 6"
    by (simp only: bit_push_bit_iff bit_1_iff) (auto simp: possible_bit_def)
  then show ?thesis by simp
qed

lemma afc_payload_only: "drop_bit 4 (push_bit 4 (1::byte) OR ucast (cc :: 4 word)) AND 0x03 = 1"
  unfolding byte_masks
  apply (rule bit_word_eqI)
  apply (auto simp: bit_simps dest: bit_imp_le_length)
  done

lemma afc_adaptation: "drop_bit 4 (push_bit 4 (3::byte) OR ucast (cc :: 4 word)) AND 0x03 = 3"
  unfolding byte_masks
  apply (rule bit_word_eqI)
  apply (auto simp: bit_simps dest: bit_imp_le_length)
  done

lemma pusi_bit: "bit ((if pusi then 0x40 else 0x00) OR ucast (drop_bit 8 (pid::u32) AND 0x1F) :: byte) 6 = pusi"
  unfolding byte_masks
  apply (auto simp: bit_simps bit_0x40)
  done

lemma pid_bits: "push_bit 8 (ucast (((if pusi then 0x40 else 0x00) OR ucast (drop_bit 8 (pid::u32) AND 0x1F) :: byte) AND 0x1F)) OR ucast (ucast (pid AND 0xFF) :: byte) = pid AND 0x1FFF"
  unfolding byte_masks
  apply (rule bit_word_eqI)
  apply (cases pusi)
  apply (auto simp: bit_simps bit_0x40 bit_0x40_nat bit_0x40_int)
  done

lemma pid_small: "(pid :: u32) < 0x2000 \<Longrightarrow> pid AND 0x1FFF = pid"
  unfolding byte_masks
  by (rule less_mask_eq) simp

lemma unat_byte_of_nat: "n < 256 \<Longrightarrow> unat (of_nat n :: byte) = n"
  by (simp add: unat_of_nat)

lemma length_ts_header: "length (ts_header pid pusi afc cc) = 4"
  by (simp add: ts_header_def)

lemma length_adaptation_stuffing: "length (adaptation_stuffing n) = n"
  by (auto simp: adaptation_stuffing_def)

lemma length_ts_packet: "length chunk \<le> 184 \<Longrightarrow> length (ts_packet pid pusi cc chunk) = 188"
  by (simp add: ts_packet_def length_ts_header length_adaptation_stuffing)

lemma packet_pid_ts_header: "packet_pid (ts_header pid pusi afc cc @ rest) = pid AND 0x1FFF"
  by (simp add: ts_header_def pid_bits)

lemma packet_pusi_ts_header: "packet_pusi (ts_header pid pusi afc cc @ rest) = pusi"
  by (simp add: ts_header_def pusi_bit)

lemma packet_pid_ts_packet: "packet_pid (ts_packet pid pusi cc chunk) = pid AND 0x1FFF"
  by (simp add: ts_packet_def packet_pid_ts_header)

lemma packet_pusi_ts_packet: "packet_pusi (ts_packet pid pusi cc chunk) = pusi"
  by (simp add: ts_packet_def packet_pusi_ts_header)

lemma packet_payload_only: "packet_payload (ts_header pid pusi 1 cc @ rest) = rest"
  by (simp only: ts_header_def append_Cons append_Nil packet_payload.simps Let_def
        afc_payload_only) simp

lemma packet_payload_adaptation:
  "packet_payload (ts_header pid pusi 3 cc @ n # rest) = drop (unat n) rest"
  by (simp only: ts_header_def append_Cons append_Nil packet_payload.simps Let_def
        afc_adaptation) simp

lemma packet_payload_stuffed:
  assumes "1 \<le> n" "n \<le> 184"
  shows "packet_payload (ts_header pid pusi 3 cc @ adaptation_stuffing n @ chunk) = chunk"
proof (cases "n = 1")
  case True
  then show ?thesis
    by (simp add: adaptation_stuffing_def packet_payload_adaptation)
next
  case False
  have "unat (of_nat (n - 1) :: byte) = (n - 1) mod 2 ^ LENGTH(8)"
    by (rule unat_of_nat)
  also have "\<dots> = n - 1"
    using assms by simp
  finally have len: "unat (of_nat (n - 1) :: byte) = n - 1" .
  have pred: "n - 1 = Suc (n - 2)"
    using False assms by simp
  have "adaptation_stuffing n @ chunk = of_nat (n - 1) # (0x00 # replicate (n - 2) 0xFF @ chunk)"
    using False assms by (simp add: adaptation_stuffing_def)
  then have "packet_payload (ts_header pid pusi 3 cc @ adaptation_stuffing n @ chunk) =
      drop (n - 1) (0x00 # replicate (n - 2) 0xFF @ chunk)"
    by (simp only: packet_payload_adaptation len)
  also have "\<dots> = chunk"
    by (simp only: pred) simp
  finally show ?thesis .
qed

lemma packet_payload_ts_packet:
  assumes "length chunk \<le> 184"
  shows "packet_payload (ts_packet pid pusi cc chunk) = chunk"
proof (cases "length chunk = 184")
  case True
  then show ?thesis
    by (simp add: ts_packet_def packet_payload_only)
next
  case False
  with assms have "1 \<le> 184 - length chunk" "184 - length chunk \<le> 184"
    by simp_all
  then show ?thesis
    using False by (simp add: ts_packet_def packet_payload_stuffed)
qed


subsection \<open>Fragments and packets\<close>

lemma fragments_Nil [simp]: "fragments pid first cc [] = []"
  by (simp add: fragments.simps)

lemma fragments_Cons:
  "bytes \<noteq> [] \<Longrightarrow> fragments pid first cc bytes =
     ts_packet pid first cc (take 184 bytes) # fragments pid False (cc + 1) (drop 184 bytes)"
  by (subst fragments.simps) simp

lemma fragments_packets:
  "p \<in> set (fragments pid first cc bytes) \<Longrightarrow> length p = 188 \<and> packet_pid p = pid AND 0x1FFF"
proof (induction pid first cc bytes rule: fragments.induct)
  case (1 pid first cc bytes)
  show ?case
  proof (cases "bytes = []")
    case True
    with "1.prems" show ?thesis by simp
  next
    case False
    with "1.prems" "1.IH" show ?thesis
      by (auto simp: fragments_Cons length_ts_packet packet_pid_ts_packet)
  qed
qed

lemma fragments_payload:
  "concat (map packet_payload (fragments pid first cc bytes)) = bytes"
proof (induction pid first cc bytes rule: fragments.induct)
  case (1 pid first cc bytes)
  show ?case
  proof (cases "bytes = []")
    case True
    then show ?thesis by simp
  next
    case False
    with "1.IH" show ?thesis
      by (simp add: fragments_Cons packet_payload_ts_packet)
  qed
qed

lemma fragments_continue:
  "q \<in> set (fragments pid False cc bytes) \<Longrightarrow> \<not> packet_pusi q"
proof (induction pid "False" cc bytes rule: fragments.induct)
  case (1 pid cc bytes)
  show ?case
  proof (cases "bytes = []")
    case True
    with "1.prems" show ?thesis by simp
  next
    case False
    with "1.prems" "1.hyps" show ?thesis
      by (auto simp: fragments_Cons packet_pusi_ts_packet)
  qed
qed

lemma write_fragments_eq:
  "write_fragments w pid first bytes =
     w\<lparr>sink := sink w @ concat (fragments pid first (continuity w pid) bytes),
       continuity := (continuity w)
         (pid := continuity w pid + of_nat (length (fragments pid first (continuity w pid) bytes)))\<rparr>"
proof (induction w pid first bytes rule: write_fragments.induct)
  case (1 w pid first bytes)
  show ?case
  proof (cases "bytes = []")
    case True
    then show ?thesis
      by (subst write_fragments.simps) simp
  next
    case False
    let ?w = "commit_packet w pid (ts_packet pid first (continuity w pid) (take 184 bytes))"
    have "write_fragments w pid first bytes = write_fragments ?w pid False (drop 184 bytes)"
      using False by (subst write_fragments.simps) simp
    also have "\<dots> =
        ?w\<lparr>sink := sink ?w @ concat (fragments pid False (continuity ?w pid) (drop 184 bytes)),
          continuity := (continuity ?w)
            (pid := continuity ?w pid +
               of_nat (length (fragments pid False (continuity ?w pid) (drop 184 bytes))))\<rparr>"
      using False by (rule "1.IH")
    also have "\<dots> =
        w\<lparr>sink := sink w @ concat (fragments pid first (continuity w pid) bytes),
          continuity := (continuity w)
            (pid := continuity w pid +
               of_nat (length (fragments pid first (continuity w pid) bytes)))\<rparr>"
      using False by (simp add: fragments_Cons commit_packet_def add.assoc)
    finally show ?thesis .
  qed
qed

lemma ts_packets_Nil [simp]: "ts_packets [] = []"
  by (simp add: ts_packets.simps)



subsection \<open>Regrouping packets, PES headers and ES units\<close>

lemma join_packet_open:
  "join_packet p ((False, g) # gs) = (packet_pusi p, packet_payload p @ g) # gs"
  by (simp add: join_packet_def)

lemma join_packet_closed:
  "gs = [] \<or> fst (hd gs) \<Longrightarrow> join_packet p gs = (packet_pusi p, packet_payload p) # gs"
  by (cases gs) (auto simp: join_packet_def)

lemma join_continue:
  assumes "\<forall>q\<in>set ps. \<not> packet_pusi q" and "ps \<noteq> []" and "gs = [] \<or> fst (hd gs)"
  shows "foldr join_packet ps gs = (False, concat (map packet_payload ps)) # gs"
  using assms
proof (induction ps)
  case Nil
  then show ?case by simp
next
  case (Cons p ps)
  show ?case
  proof (cases "ps = []")
    case True
    with Cons.prems show ?thesis
      by (simp add: join_packet_closed)
  next
    case False
    with Cons have "foldr join_packet ps gs = (False, concat (map packet_payload ps)) # gs"
      by simp
    then have "foldr join_packet (p # ps) gs =
        join_packet p ((False, concat (map packet_payload ps)) # gs)"
      by simp
    with Cons.prems show ?thesis
      by (simp add: join_packet_open)
  qed
qed

lemma join_start:
  assumes "packet_pusi p" and "\<forall>q\<in>set ps. \<not> packet_pusi q" and "gs = [] \<or> fst (hd gs)"
  shows "foldr join_packet (p # ps) gs = (True, concat (map packet_payload (p # ps))) # gs"
proof (cases "ps = []")
  case True
  with assms show ?thesis
    by (simp add: join_packet_closed)
next
  case False
  with assms have "foldr join_packet ps gs = (False, concat (map packet_payload ps)) # gs"
    by (simp add: join_continue)
  then have "foldr join_packet (p # ps) gs =
      join_packet p ((False, concat (map packet_payload ps)) # gs)"
    by simp
  with assms show ?thesis
    by (simp add: join_packet_open)
qed

lemma fragments_group:
  assumes "bytes \<noteq> []" and "gs = [] \<or> fst (hd gs)"
  shows "foldr join_packet (fragments pid True cc bytes) gs = (True, bytes) # gs"
proof -
  let ?p = "ts_packet pid True cc (take 184 bytes)"
  let ?ps = "fragments pid False (cc + 1) (drop 184 bytes)"
  have split: "fragments pid True cc bytes = ?p # ?ps"
    using assms(1) by (rule fragments_Cons)
  have "foldr join_packet (?p # ?ps) gs = (True, concat (map packet_payload (?p # ?ps))) # gs"
    using assms(2) by (intro join_start) (auto simp: packet_pusi_ts_packet dest: fragments_continue)
  moreover have "concat (map packet_payload (?p # ?ps)) = bytes"
    using fragments_payload [of pid True cc bytes] by (simp only: split)
  ultimately show ?thesis
    by (simp only: split)
qed

lemma pack_pes_not_Nil: "pack_pes stream_id payload \<noteq> []"
  by (simp add: pack_pes_def Let_def)

lemma strip_pes_header_pack_pes: "strip_pes_header (pack_pes stream_id payload) = payload"
  by (simp add: pack_pes_def Let_def)

lemma units_packets_groups:
  "foldr join_packet (units_packets pid cc us) [] =
     map (\<lambda>u. (True, pack_pes DEFAULT_VIDEO_STREAM_ID (data u))) us"
proof (induction us arbitrary: cc)
  case Nil
  show ?case by simp
next
  case (Cons u us)
  let ?ps = "fragments pid True cc (pack_pes DEFAULT_VIDEO_STREAM_ID (data u))"
  let ?gs = "map (\<lambda>u. (True, pack_pes DEFAULT_VIDEO_STREAM_ID (data u))) us"
  have "foldr join_packet (units_packets pid cc (u # us)) [] = foldr join_packet ?ps ?gs"
    by (simp add: Let_def Cons.IH)
  also have "\<dots> = (True, pack_pes DEFAULT_VIDEO_STREAM_ID (data u)) # ?gs"
    by (rule fragments_group) (auto simp: pack_pes_not_Nil intro: list.exhaust [of us])
  finally show ?case by simp
qed

lemma units_packets_packets:
  "p \<in> set (units_packets pid cc us) \<Longrightarrow> length p = 188 \<and> packet_pid p = pid AND 0x1FFF"
  by (induction us arbitrary: cc) (auto simp: Let_def dest: fragments_packets)

lemma until_startcode_append: "fst (until_startcode bs) @ snd (until_startcode bs) = bs"
  by (induction bs rule: until_startcode.induct) (auto split: prod.splits)

lemma until_startcode_stops:
  "snd (until_startcode bs) = [] \<or> at_startcode (snd (until_startcode bs))"
  by (induction bs rule: until_startcode.induct) (auto split: prod.splits)

lemma build_units_concat:
  "bs = [] \<or> at_startcode bs \<Longrightarrow> concat (map data (build_units bs)) = bs"
proof (induction bs rule: build_units.induct)
  case (1 bs)
  show ?case
  proof (cases "at_startcode bs")
    case False
    with "1.prems" show ?thesis
      by (subst build_units.simps) simp
  next
    case True
    then obtain a b c d rest where bs: "bs = a # b # c # d # rest"
      by (cases bs rule: at_startcode.cases) auto
    obtain body rest' where split: "until_startcode rest = (body, rest')"
      by (cases "until_startcode rest")
    have rest: "body @ rest' = rest"
      using until_startcode_append [of rest] by (simp add: split)
    have "rest' = [] \<or> at_startcode rest'"
      using until_startcode_stops [of rest] by (simp add: split)
    then have "concat (map data (build_units rest')) = rest'"
      using bs True split by (intro "1.IH") auto
    then show ?thesis
      using True bs split rest by (subst build_units.simps) simp
  qed
qed

lemma skip_to_startcode_drop: "skip_to_startcode bs = drop (first_startcode bs) bs"
  by (induction bs rule: skip_to_startcode.induct) auto

lemma skip_to_startcode_stops:
  "skip_to_startcode bs = [] \<or> at_startcode (skip_to_startcode bs)"
  by (induction bs rule: skip_to_startcode.induct) auto

lemma es_units_concat: "concat (map data (es_units input)) = drop (first_startcode input) input"
  using build_units_concat [OF skip_to_startcode_stops, of input]
  by (simp add: es_units_def skip_to_startcode_drop)

lemma first_startcode_le: "first_startcode bs \<le> length bs"
  by (induction bs rule: first_startcode.induct) auto

lemma first_startcode_least: "i < first_startcode bs \<Longrightarrow> \<not> at_startcode (drop i bs)"
proof (induction bs arbitrary: i rule: first_startcode.induct)
  case 1
  then show ?case by simp
next
  case (2 b bs)
  then show ?case
    by (cases i) (auto split: if_splits)
qed

lemma first_startcode_found:
  "first_startcode bs < length bs \<Longrightarrow> at_startcode (drop (first_startcode bs) bs)"
  by (induction bs rule: first_startcode.induct) auto

subsection \<open>Program tables and the transfer loop\<close>

lemma length_with_crc: "length (with_crc bs) = length bs + 4"
  by (simp add: with_crc_def Let_def)

lemma length_pat_section: "length (pat_section tsid prog pmt) = 16"
  by (simp add: pat_section_def length_with_crc)

lemma length_pmt_section: "length (pmt_section prog vid st) = 21"
  by (simp add: pmt_section_def length_with_crc)

lemma length_psi_packet: "length section \<le> 183 \<Longrightarrow> length (psi_packet pid cc section) = 188"
  by (simp add: psi_packet_def length_ts_header)

lemma packet_pid_psi_packet: "packet_pid (psi_packet pid cc section) = pid AND 0x1FFF"
  by (simp add: psi_packet_def packet_pid_ts_header)

lemma packet_pusi_psi_packet: "packet_pusi (psi_packet pid cc section)"
  by (simp add: psi_packet_def packet_pusi_ts_header)

lemma with_crc_nth: "i < length bs \<Longrightarrow> with_crc bs ! i = bs ! i"
  by (simp add: with_crc_def Let_def nth_append)

lemma pmt_packet_stream_type: "psi_packet pid cc (pmt_section prog vid st) ! 17 = st"
proof -
  have "psi_packet pid cc (pmt_section prog vid st) ! 17 = pmt_section prog vid st ! 12"
    by (simp add: psi_packet_def ts_header_def nth_append length_pmt_section)
  also have "\<dots> = st"
    by (simp add: pmt_section_def with_crc_nth)
  finally show ?thesis .
qed

lemma write_psi_eq:
  "write_psi w tsid prog pmt vid st =
     (0, w\<lparr>sink := sink w @ psi_packet 0 (continuity w 0) (pat_section tsid prog pmt)
               @ psi_packet pmt (((continuity w)(0 := continuity w 0 + 1)) pmt)
                   (pmt_section prog vid st),
           continuity := ((continuity w)(0 := continuity w 0 + 1))
               (pmt := ((continuity w)(0 := continuity w 0 + 1)) pmt + 1)\<rparr>)"
  by (simp add: write_psi_def write_section_def commit_packet_def Let_def)

lemma write_units_spec:
  assumes "write_ES_as_TS_PES_packet env = write_pes"
  shows "sink (write_units env w pid us) =
     sink w @ concat (units_packets pid (continuity w pid) us)"
proof (induction us arbitrary: w)
  case Nil
  show ?case by simp
next
  case (Cons u us)
  show ?case
    by (simp add: Cons.IH write_ES_unit_as_TS_def assms write_pes_def write_fragments_eq Let_def)
qed

lemma write_unit_spec_ok:
  "write_ES_as_TS_PES_packet env = write_pes \<Longrightarrow> fst (write_ES_unit_as_TS env w u pid) = 0"
  by (simp add: write_ES_unit_as_TS_def write_pes_def)

lemma transfer_loop_EOF:
  "upcoming es = [] \<Longrightarrow> transfer_loop env es w pid mx c vb = (True, 0, w, es, c)"
  by (subst transfer_loop.simps) (simp add: find_and_build_next_ES_unit_def)

lemma transfer_loop_error:
  "upcoming es = Inl k # rest \<Longrightarrow>
     transfer_loop env es w pid mx c vb = (False, int k + 1, w, es\<lparr>upcoming := rest\<rparr>, c)"
  by (subst transfer_loop.simps) (simp add: find_and_build_next_ES_unit_def)

lemma transfer_loop_unit:
  "upcoming es = Inr u # rest \<Longrightarrow>
     transfer_loop env es w pid mx c vb =
       (let (err, w') = write_ES_unit_as_TS env w u pid
        in if err \<noteq> 0 then (False, err, w', es\<lparr>upcoming := rest\<rparr>, c + 1)
           else if mx > 0 \<and> c + 1 \<ge> mx then (True, 0, w', es\<lparr>upcoming := rest\<rparr>, c + 1)
           else transfer_loop env (es\<lparr>upcoming := rest\<rparr>) w' pid mx (c + 1) vb)"
  by (subst transfer_loop.simps) (simp add: find_and_build_next_ES_unit_def Let_def)

lemma transfer_loop_run:
  assumes "\<And>w u. fst (write_ES_unit_as_TS env w u pid) = 0"
  shows "upcoming es = map Inr us @ rest \<Longrightarrow> (mx > 0 \<longrightarrow> c + int (length us) < mx) \<Longrightarrow>
     transfer_loop env es w pid mx c vb =
       transfer_loop env (es\<lparr>upcoming := rest\<rparr>) (write_units env w pid us) pid mx
         (c + int (length us)) vb"
proof (induction us arbitrary: es w c)
  case Nil
  then have "es\<lparr>upcoming := rest\<rparr> = es" by simp
  then show ?case by simp
next
  case (Cons u us)
  obtain err w' where wr: "write_ES_unit_as_TS env w u pid = (err, w')"
    by (cases "write_ES_unit_as_TS env w u pid")
  with assms [of w u] have err: "err = 0" by simp
  have step: "transfer_loop env es w pid mx c vb =
      transfer_loop env (es\<lparr>upcoming := map Inr us @ rest\<rparr>) w' pid mx (c + 1) vb"
    using Cons.prems wr err by (subst transfer_loop_unit [of es u "map Inr us @ rest"]) auto
  have "transfer_loop env (es\<lparr>upcoming := map Inr us @ rest\<rparr>) w' pid mx (c + 1) vb =
      transfer_loop env (es\<lparr>upcoming := map Inr us @ rest\<rparr>\<lparr>upcoming := rest\<rparr>)
        (write_units env w' pid us) pid mx (c + 1 + int (length us)) vb"
    using Cons.prems by (intro Cons.IH) auto
  with step wr show ?case
    by (simp add: ac_simps)
qed

subsection \<open>The command line and main\<close>

lemma parse_args_rel:
  assumes refl: "\<And>a. R a a"
    and trans: "\<And>a b c. R a b \<Longrightarrow> R b c \<Longrightarrow> R a c"
    and step: "\<And>arg rest a b t. parse_step env arg rest a = Inr (b, t) \<Longrightarrow> R a b"
  shows "parse_args env args v0 = Inr v \<Longrightarrow> R v0 v"
proof (induction args arbitrary: v0 rule: length_induct)
  case (1 args)
  show ?case
  proof (cases args)
    case Nil
    with "1.prems" show ?thesis by (simp add: refl)
  next
    case (Cons arg rest)
    show ?thesis
    proof (cases "parse_step env arg rest v0")
      case (Inl code)
      with "1.prems" Cons show ?thesis by simp
    next
      case (Inr r)
      obtain v' t where r: "r = (v', t)" by (cases r)
      from "1.prems" Cons Inr r
      have "parse_args env (if t then tl rest else rest) v' = Inr v" by simp
      moreover have "length (if t then tl rest else rest) < length args"
        using Cons by auto
      ultimately have "R v' v"
        using "1.IH" by blast
      moreover from Inr r have "parse_step env arg rest v0 = Inr (v', t)"
        by simp
      then have "R v0 v'"
        by (rule step)
      ultimately show ?thesis by (rule trans [rotated])
    qed
  qed
qed

lemma parse_step_forcing:
  "parse_step env arg rest a = Inr (b, t) \<Longrightarrow>
     (\<not> force_stream_type b \<longrightarrow> video_type b = video_type a \<and> \<not> force_stream_type a)
     \<and> (video_type a \<noteq> VIDEO_UNKNOWN \<longrightarrow> video_type b \<noteq> VIDEO_UNKNOWN)"
  unfolding parse_step_def
  by (cases "which_switch arg")
     (auto split: if_splits list.splits option.splits prod.splits)

lemma parse_args_unforced:
  assumes "parse_args env args v0 = Inr v" and "\<not> force_stream_type v"
  shows "video_type v = video_type v0 \<and> \<not> force_stream_type v0"
proof -
  have "\<not> force_stream_type v \<longrightarrow> video_type v = video_type v0 \<and> \<not> force_stream_type v0"
    by (rule parse_args_rel [where R = "\<lambda>a b. \<not> force_stream_type b \<longrightarrow>
          video_type b = video_type a \<and> \<not> force_stream_type a", OF _ _ _ assms(1)])
       (auto dest: parse_step_forcing)
  with assms(2) show ?thesis by simp
qed

lemma parse_args_known:
  assumes "parse_args env args v0 = Inr v" and "video_type v0 \<noteq> VIDEO_UNKNOWN"
  shows "video_type v \<noteq> VIDEO_UNKNOWN"
proof -
  have "video_type v0 \<noteq> VIDEO_UNKNOWN \<longrightarrow> video_type v \<noteq> VIDEO_UNKNOWN"
    by (rule parse_args_rel [where R = "\<lambda>a b. video_type a \<noteq> VIDEO_UNKNOWN \<longrightarrow>
          video_type b \<noteq> VIDEO_UNKNOWN", OF _ _ _ assms(1)])
       (auto dest: parse_step_forcing)
  with assms(2) show ?thesis by simp
qed

lemma run_es2ts_transfer:
  assumes names: "had_input_name v" "had_output_name v"
    and es: "open_elementary_stream env (if use_stdin v then None else input_name v) = Some es"
    and kind: "(if force_stream_type v \<or> use_stdin v then Some (video_type v)
                else decide_ES_file_video_type env es (verbose v \<and> \<not> use_stdout v)) = Some kind"
    and st: "switch_video_type kind = Some st"
    and opn: "(if use_stdout v then tswrite_open env TS_W_STDOUT None 0 True
               else if use_tcpip v then tswrite_open env TS_W_TCP (output_name v) (port v) (quiet v)
               else tswrite_open env TS_W_FILE (output_name v) 0 (quiet v)) = Some w0"
    and tr: "transfer_data env es w0 (pmt_pid v) (video_pid v) st (max2 v)
               (verbose v \<and> \<not> use_stdout v) (quiet v \<or> use_stdout v) = (err, w, es', n)"
  shows "run_es2ts env v =
     \<lparr>exit_code = (if tswrite_close env w (quiet v \<or> use_stdout v) \<noteq> 0 \<or> err \<noteq> 0 then 1 else 0),
      calls = Call_open_elementary_stream (if use_stdin v then None else input_name v)
        # (if force_stream_type v \<or> use_stdin v then [] else [Call_decide_ES_file_video_type])
        @ [if use_stdout v then Call_tswrite_open TS_W_STDOUT None 0
           else if use_tcpip v then Call_tswrite_open TS_W_TCP (output_name v) (port v)
           else Call_tswrite_open TS_W_FILE (output_name v) 0,
           Call_transfer_data (pmt_pid v) (video_pid v) st (max2 v),
           Call_close_elementary_stream, Call_tswrite_close],
      final_output = Some w\<rparr>"
  using assms
  by (cases "use_stdout v"; cases "use_stdin v"; cases "force_stream_type v";
      cases "use_tcpip v")
     (simp_all add: run_es2ts_def Let_def)

lemma es2ts_main_parsed:
  "args \<noteq> [] \<Longrightarrow> parse_args env args initial_vars = Inr v \<Longrightarrow>
     es2ts_main env args = run_es2ts env v"
  by (simp add: es2ts_main_def)


lemma run_es2ts_output:
  assumes "final_output (run_es2ts env v) = Some w"
  obtains es kind st w0 err es' n where
    "had_input_name v" "had_output_name v"
    "open_elementary_stream env (if use_stdin v then None else input_name v) = Some es"
    "(if force_stream_type v \<or> use_stdin v then Some (video_type v)
      else decide_ES_file_video_type env es (verbose v \<and> \<not> use_stdout v)) = Some kind"
    "switch_video_type kind = Some st"
    "(if use_stdout v then tswrite_open env TS_W_STDOUT None 0 True
      else if use_tcpip v then tswrite_open env TS_W_TCP (output_name v) (port v) (quiet v)
      else tswrite_open env TS_W_FILE (output_name v) 0 (quiet v)) = Some w0"
    "transfer_data env es w0 (pmt_pid v) (video_pid v) st (max2 v)
       (verbose v \<and> \<not> use_stdout v) (quiet v \<or> use_stdout v) = (err, w, es', n)"
  using assms
  by (cases "use_stdout v"; cases "use_stdin v"; cases "force_stream_type v";
      cases "use_tcpip v")
     (auto simp: run_es2ts_def Let_def split: if_splits option.splits prod.splits)

lemma which_switch_forcing:
  "which_switch arg = Sw_h264 \<longleftrightarrow> arg = ''-avc'' \<or> arg = ''-h264''"
  "which_switch arg = Sw_h262 \<longleftrightarrow> arg = ''-h262''"
  "which_switch arg = Sw_avs \<longleftrightarrow> arg = ''-avs''"
  "which_switch arg = Sw_pid \<longleftrightarrow> arg = ''-pid''"
  "which_switch arg = Sw_pmt \<longleftrightarrow> arg = ''-pmt''"
  by (auto simp: which_switch_def)

lemma parse_step_append:
  "parse_step env arg rest v = Inr (v', t) \<Longrightarrow>
     parse_step env arg (rest @ others) v = Inr (v', t) \<and> (t \<longrightarrow> rest \<noteq> [])"
  unfolding parse_step_def
  by (cases "which_switch arg")
     (auto split: if_splits list.splits option.splits prod.splits)

lemma parse_args_append:
  "parse_args env pre v0 = Inr v1 \<Longrightarrow> parse_args env (pre @ others) v0 = parse_args env others v1"
proof (induction pre arbitrary: v0 rule: length_induct)
  case (1 pre)
  show ?case
  proof (cases pre)
    case Nil
    with "1.prems" show ?thesis by simp
  next
    case (Cons arg rest)
    show ?thesis
    proof (cases "parse_step env arg rest v0")
      case (Inl code)
      with "1.prems" Cons show ?thesis by simp
    next
      case (Inr r)
      obtain v' t where r: "r = (v', t)" by (cases r)
      from Inr r have step: "parse_step env arg rest v0 = Inr (v', t)"
        by simp
      from parse_step_append [OF step, of others]
      have step': "parse_step env arg (rest @ others) v0 = Inr (v', t)" and t: "t \<longrightarrow> rest \<noteq> []"
        by simp_all
      from "1.prems" Cons step
      have "parse_args env (if t then tl rest else rest) v' = Inr v1" by simp
      moreover have "length (if t then tl rest else rest) < length pre"
        using Cons by auto
      ultimately have "parse_args env ((if t then tl rest else rest) @ others) v' =
          parse_args env others v1"
        using "1.IH" by blast
      moreover have "(if t then tl (rest @ others) else rest @ others) =
          (if t then tl rest else rest) @ others"
        using t by auto
      ultimately show ?thesis
        using Cons step' by simp
    qed
  qed
qed

lemma parse_args_step:
  "parse_step env arg rest v = Inr (v', t) \<Longrightarrow>
     parse_args env (arg # rest) v = parse_args env (if t then tl rest else rest) v'"
  by simp

lemma parse_step_forced:
  "parse_step env ''-h262'' rest v =
     Inr (v\<lparr>force_stream_type := True, video_type := VIDEO_H262\<rparr>, False)"
  "parse_step env ''-h264'' rest v =
     Inr (v\<lparr>force_stream_type := True, video_type := VIDEO_H264\<rparr>, False)"
  "parse_step env ''-avc'' rest v =
     Inr (v\<lparr>force_stream_type := True, video_type := VIDEO_H264\<rparr>, False)"
  "parse_step env ''-avs'' rest v =
     Inr (v\<lparr>force_stream_type := True, video_type := VIDEO_AVS\<rparr>, False)"
  by (simp_all add: parse_step_def which_switch_def)

lemma parse_step_pid:
  "unsigned_value env val 0 = Some n \<Longrightarrow>
     parse_step env ''-pid'' (val # rest) v = Inr (v\<lparr>video_pid := n\<rparr>, True)"
  "unsigned_value env val 0 = Some n \<Longrightarrow>
     parse_step env ''-pmt'' (val # rest) v = Inr (v\<lparr>pmt_pid := n\<rparr>, True)"
  by (simp_all add: parse_step_def which_switch_def)

lemma in_set_tl: "x \<in> set (tl xs) \<Longrightarrow> x \<in> set xs"
  by (cases xs) auto


lemma parse_args_rel_on:
  assumes refl: "\<And>a. R a a"
    and trans: "\<And>a b c. R a b \<Longrightarrow> R b c \<Longrightarrow> R a c"
    and step: "\<And>arg rest a b t. P arg \<Longrightarrow> parse_step env arg rest a = Inr (b, t) \<Longrightarrow> R a b"
  shows "\<forall>x\<in>set args. P x \<Longrightarrow> parse_args env args v0 = Inr v \<Longrightarrow> R v0 v"
proof (induction args arbitrary: v0 rule: length_induct)
  case (1 args)
  show ?case
  proof (cases args)
    case Nil
    with "1.prems" show ?thesis by (simp add: refl)
  next
    case (Cons arg rest)
    show ?thesis
    proof (cases "parse_step env arg rest v0")
      case (Inl code)
      with "1.prems" Cons show ?thesis by simp
    next
      case (Inr r)
      obtain v' t where r: "r = (v', t)" by (cases r)
      from "1.prems" Cons Inr r
      have "parse_args env (if t then tl rest else rest) v' = Inr v" by simp
      moreover have "length (if t then tl rest else rest) < length args"
        using Cons by auto
      moreover have "\<forall>x\<in>set (if t then tl rest else rest). P x"
        using "1.prems"(1) Cons by (auto dest: in_set_tl)
      ultimately have "R v' v"
        using "1.IH" by blast
      moreover from Inr r have "parse_step env arg rest v0 = Inr (v', t)"
        by simp
      with "1.prems"(1) Cons have "R v0 v'"
        by (intro step [of arg]) simp_all
      ultimately show ?thesis by (rule trans [rotated])
    qed
  qed
qed

lemma parse_args_commute:
  assumes step: "\<And>arg rest a. P arg \<Longrightarrow>
      parse_step env arg rest (f a) = map_sum id (\<lambda>(b, t). (f b, t)) (parse_step env arg rest a)"
  shows "\<forall>x\<in>set args. P x \<Longrightarrow> parse_args env args (f a) = map_sum id f (parse_args env args a)"
proof (induction args arbitrary: a rule: length_induct)
  case (1 args)
  show ?case
  proof (cases args)
    case Nil
    then show ?thesis by simp
  next
    case (Cons arg rest)
    with "1.prems" have P: "P arg" by simp
    show ?thesis
    proof (cases "parse_step env arg rest a")
      case (Inl code)
      with Cons step [OF P, of rest a] show ?thesis by simp
    next
      case (Inr r)
      obtain v' t where r: "r = (v', t)" by (cases r)
      have "length (if t then tl rest else rest) < length args"
        using Cons by auto
      moreover have "\<forall>x\<in>set (if t then tl rest else rest). P x"
        using "1.prems"(1) Cons by (auto dest: in_set_tl)
      ultimately have "parse_args env (if t then tl rest else rest) (f v') =
          map_sum id f (parse_args env (if t then tl rest else rest) v')"
        using "1.IH" by blast
      with Cons Inr r step [OF P, of rest a] show ?thesis by (simp add: id_def)
    qed
  qed
qed


lemma parse_step_keeps_pids:
  "arg \<noteq> ''-pid'' \<and> arg \<noteq> ''-pmt'' \<Longrightarrow>
     parse_step env arg rest (a\<lparr>video_pid := x, pmt_pid := y\<rparr>) =
       map_sum id (\<lambda>(b, t). (b\<lparr>video_pid := x, pmt_pid := y\<rparr>, t)) (parse_step env arg rest a)"
proof -
  assume "arg \<noteq> ''-pid'' \<and> arg \<noteq> ''-pmt''"
  then have "which_switch arg \<noteq> Sw_pid" "which_switch arg \<noteq> Sw_pmt"
    by (simp_all add: which_switch_forcing)
  then show ?thesis
    unfolding parse_step_def
    by (cases a; cases "which_switch arg")
       (simp_all split: list.split option.split prod.split)
qed

lemma parse_args_keeps_pids:
  assumes "''-pid'' \<notin> set args" and "''-pmt'' \<notin> set args"
  shows "parse_args env args (a\<lparr>video_pid := x, pmt_pid := y\<rparr>) =
     map_sum id (\<lambda>b. b\<lparr>video_pid := x, pmt_pid := y\<rparr>) (parse_args env args a)"
  using assms
  by (intro parse_args_commute [where P = "\<lambda>arg. arg \<noteq> ''-pid'' \<and> arg \<noteq> ''-pmt''"
        and f = "\<lambda>b. b\<lparr>video_pid := x, pmt_pid := y\<rparr>"] parse_step_keeps_pids) auto

lemma parse_step_keeps_forced:
  "arg \<notin> {''-h262'', ''-h264'', ''-avc'', ''-avs''} \<Longrightarrow>
     parse_step env arg rest (a\<lparr>force_stream_type := True, video_type := k\<rparr>) =
       map_sum id (\<lambda>(b, t). (b\<lparr>force_stream_type := True, video_type := k\<rparr>, t))
         (parse_step env arg rest a)"
proof -
  assume "arg \<notin> {''-h262'', ''-h264'', ''-avc'', ''-avs''}"
  then have "which_switch arg \<noteq> Sw_h262" "which_switch arg \<noteq> Sw_h264"
      "which_switch arg \<noteq> Sw_avs"
    by (simp_all add: which_switch_forcing)
  then show ?thesis
    unfolding parse_step_def
    by (cases a; cases "which_switch arg")
       (simp_all split: list.split option.split prod.split)
qed

lemma parse_args_keeps_forced:
  assumes "\<forall>x\<in>set args. x \<notin> {''-h262'', ''-h264'', ''-avc'', ''-avs''}"
  shows "parse_args env args (a\<lparr>force_stream_type := True, video_type := k\<rparr>) =
     map_sum id (\<lambda>b. b\<lparr>force_stream_type := True, video_type := k\<rparr>) (parse_args env args a)"
  using assms
  by (intro parse_args_commute [where P = "\<lambda>arg. arg \<notin> {''-h262'', ''-h264'', ''-avc'', ''-avs''}"
        and f = "\<lambda>b. b\<lparr>force_stream_type := True, video_type := k\<rparr>"] parse_step_keeps_forced)
     auto

lemma parse_step_not_forcing:
  "arg \<notin> {''-h262'', ''-h264'', ''-avc'', ''-avs''} \<Longrightarrow>
     parse_step env arg rest a = Inr (b, t) \<Longrightarrow>
     force_stream_type b = force_stream_type a \<and> video_type b = video_type a"
proof -
  assume "arg \<notin> {''-h262'', ''-h264'', ''-avc'', ''-avs''}"
  then have "which_switch arg \<noteq> Sw_h262" "which_switch arg \<noteq> Sw_h264"
      "which_switch arg \<noteq> Sw_avs"
    by (simp_all add: which_switch_forcing)
  moreover assume "parse_step env arg rest a = Inr (b, t)"
  ultimately show ?thesis
    unfolding parse_step_def
    by (cases "which_switch arg")
       (auto split: if_splits list.splits option.splits prod.splits)
qed

lemma parse_args_not_forcing:
  assumes "\<forall>x\<in>set args. x \<notin> {''-h262'', ''-h264'', ''-avc'', ''-avs''}"
    and "parse_args env args v0 = Inr v"
  shows "force_stream_type v = force_stream_type v0 \<and> video_type v = video_type v0"
proof -
  let ?P = "\<lambda>arg. arg \<notin> {''-h262'', ''-h264'', ''-avc'', ''-avs''}"
  let ?R = "\<lambda>a b. force_stream_type b = force_stream_type a \<and> video_type b = video_type a"
  have "?R v0 v"
  proof (rule parse_args_rel_on [where R = ?R and P = ?P])
    show "?R a a" for a :: main_vars
      by simp
    show "?R a c" if "?R a b" "?R b c" for a b c :: main_vars
      using that by simp
    show "?R a b" if "?P arg" "parse_step env arg rest a = Inr (b, t)" for arg rest a b t
      using that by (rule parse_step_not_forcing)
    show "\<forall>x\<in>set args. ?P x"
      by (rule assms(1))
    show "parse_args env args v0 = Inr v"
      by (rule assms(2))
  qed
  then show ?thesis .
qed

lemma parse_args_with_pids:
  assumes pre: "parse_args env pre initial_vars = Inr v1"
    and base: "parse_args env (pre @ post) initial_vars = Inr v"
    and post: "''-pid'' \<notin> set post" "''-pmt'' \<notin> set post"
    and nums: "unsigned_value env a 0 = Some x" "unsigned_value env b 0 = Some y"
  shows "parse_args env (pre @ ''-pid'' # a # ''-pmt'' # b # post) initial_vars =
     Inr (v\<lparr>video_pid := x, pmt_pid := y\<rparr>)"
proof -
  from base have rest: "parse_args env post v1 = Inr v"
    by (simp add: parse_args_append [OF pre])
  have "parse_args env (pre @ ''-pid'' # a # ''-pmt'' # b # post) initial_vars =
      parse_args env (''-pid'' # a # ''-pmt'' # b # post) v1"
    by (rule parse_args_append [OF pre])
  also have "\<dots> = parse_args env (''-pmt'' # b # post) (v1\<lparr>video_pid := x\<rparr>)"
    by (simp add: parse_step_pid(1) [OF nums(1)])
  also have "\<dots> = parse_args env post (v1\<lparr>video_pid := x, pmt_pid := y\<rparr>)"
    by (simp add: parse_step_pid(2) [OF nums(2)])
  also have "\<dots> = Inr (v\<lparr>video_pid := x, pmt_pid := y\<rparr>)"
    by (simp add: parse_args_keeps_pids [OF post] rest)
  finally show ?thesis .
qed

lemma parse_args_with_forcing:
  assumes pre: "parse_args env pre initial_vars = Inr v1"
    and base: "parse_args env (pre @ post) initial_vars = Inr v"
    and post: "\<forall>x\<in>set post. x \<notin> {''-h262'', ''-h264'', ''-avc'', ''-avs''}"
    and sw: "sw \<in> {''-h262'', ''-h264'', ''-avc'', ''-avs''}"
  shows "parse_args env (pre @ sw # post) initial_vars =
     Inr (v\<lparr>force_stream_type := True,
            video_type := (if sw = ''-h262'' then VIDEO_H262
                           else if sw = ''-avs'' then VIDEO_AVS else VIDEO_H264)\<rparr>)"
proof -
  let ?k = "if sw = ''-h262'' then VIDEO_H262 else if sw = ''-avs'' then VIDEO_AVS else VIDEO_H264"
  from base have rest: "parse_args env post v1 = Inr v"
    by (simp add: parse_args_append [OF pre])
  have "parse_args env (pre @ sw # post) initial_vars = parse_args env (sw # post) v1"
    by (rule parse_args_append [OF pre])
  also have "\<dots> = parse_args env post (v1\<lparr>force_stream_type := True, video_type := ?k\<rparr>)"
  proof -
    from sw consider "sw = ''-h262''" | "sw = ''-h264''" | "sw = ''-avc''" | "sw = ''-avs''"
      by blast
    then show ?thesis
      by cases (simp_all add: parse_step_forced)
  qed
  also have "\<dots> = Inr (v\<lparr>force_stream_type := True, video_type := ?k\<rparr>)"
    by (simp only: parse_args_keeps_forced [OF post] rest) simp
  finally show ?thesis .
qed

subsection \<open>The calls of main and what transfer_data writes\<close>

lemma run_es2ts_no_decide:
  "force_stream_type v \<or> use_stdin v \<Longrightarrow>
     Call_decide_ES_file_video_type \<notin> set (calls (run_es2ts env v))"
  by (cases "use_stdout v"; cases "use_stdin v"; cases "force_stream_type v";
      cases "use_tcpip v")
     (auto simp: run_es2ts_def Let_def split: if_splits option.splits prod.splits)

lemma run_es2ts_transfer_called:
  "Call_transfer_data a b c d \<in> set (calls (run_es2ts env v)) \<Longrightarrow>
     \<exists>w. final_output (run_es2ts env v) = Some w"
  by (cases "use_stdout v"; cases "use_stdin v"; cases "force_stream_type v";
      cases "use_tcpip v")
     (auto simp: run_es2ts_def Let_def split: if_splits option.splits prod.splits)

lemma transfer_loop_written:
  "transfer_loop env es w pid mx c vb = (fin, err, w', es', c') \<Longrightarrow>
     \<exists>us. c' = c + int (length us) \<and> map Inr us = take (length us) (upcoming es)
       \<and> w' = write_units env w pid us"
proof (induction "upcoming es" arbitrary: es w c)
  case Nil
  then show ?case
    by (intro exI [of _ "[]"]) (simp add: transfer_loop_EOF)
next
  case (Cons x xs)
  show ?case
  proof (cases x)
    case (Inl e)
    with Cons.hyps(2) Cons.prems show ?thesis
      by (intro exI [of _ "[]"]) (simp add: transfer_loop_error [of es e xs])
  next
    case (Inr u)
    obtain e1 w1 where wr: "write_ES_unit_as_TS env w u pid = (e1, w1)"
      by (cases "write_ES_unit_as_TS env w u pid")
    have up: "upcoming es = Inr u # xs"
      using Cons.hyps(2) Inr by simp
    show ?thesis
    proof (cases "e1 \<noteq> 0 \<or> (mx > 0 \<and> c + 1 \<ge> mx)")
      case True
      with Cons.prems up wr have "c' = c + 1 \<and> w' = w1"
        by (auto simp: transfer_loop_unit [of es u xs] split: if_splits)
      with up wr show ?thesis
        by (intro exI [of _ "[u]"]) simp
    next
      case False
      with Cons.prems up wr
      have "transfer_loop env (es\<lparr>upcoming := xs\<rparr>) w1 pid mx (c + 1) vb = (fin, err, w', es', c')"
        by (auto simp: transfer_loop_unit [of es u xs] split: if_splits)
      moreover have "xs = upcoming (es\<lparr>upcoming := xs\<rparr>)"
        by simp
      ultimately obtain us where
        "c' = c + 1 + int (length us)"
        "map Inr us = take (length us) (upcoming (es\<lparr>upcoming := xs\<rparr>))"
        "w' = write_units env w1 pid us"
        using Cons.hyps(1) by blast
      with up wr show ?thesis
        by (intro exI [of _ "u # us"]) simp
    qed
  qed
qed

lemma transfer_data_written:
  assumes "transfer_data env es w0 pmt vid st mx vb qt = (err, w, es', n)"
    and "fst (write_TS_program_data env w0 1 1 pmt vid st) = 0"
  shows "\<exists>us. n = int (length us) \<and> map Inr us = take (length us) (upcoming es)
       \<and> w = write_units env (snd (write_TS_program_data env w0 1 1 pmt vid st)) vid us"
proof -
  obtain w1 where psi: "write_TS_program_data env w0 1 1 pmt vid st = (0, w1)"
    using assms(2) by (cases "write_TS_program_data env w0 1 1 pmt vid st") simp
  obtain fin e1 w2 es2 c2 where
    loop: "transfer_loop env es w1 vid mx 0 vb = (fin, e1, w2, es2, c2)"
    by (cases "transfer_loop env es w1 vid mx 0 vb")
  from assms(1) psi loop have "w = w2" "n = c2"
    by (auto simp: transfer_data_def split: if_splits)
  with transfer_loop_written [OF loop] psi show ?thesis
    by simp
qed

lemma transfer_data_spec_sink:
  assumes "write_TS_program_data env = write_psi"
    and "write_ES_as_TS_PES_packet env = write_pes"
    and "transfer_data env es w0 pmt vid st mx vb qt = (err, w, es', n)"
  shows "\<exists>us. n = int (length us) \<and> map Inr us = take (length us) (upcoming es)
       \<and> sink w = sink w0 @ psi_packet 0 (continuity w0 0) (pat_section 1 1 pmt)
           @ psi_packet pmt (((continuity w0)(0 := continuity w0 0 + 1)) pmt)
               (pmt_section 1 vid st)
           @ concat (units_packets vid (continuity (snd (write_psi w0 1 1 pmt vid st)) vid) us)"
proof -
  have "fst (write_TS_program_data env w0 1 1 pmt vid st) = 0"
    by (simp add: assms(1) write_psi_eq)
  from transfer_data_written [OF assms(3) this] obtain us where
    us: "n = int (length us)" "map Inr us = take (length us) (upcoming es)"
      "w = write_units env (snd (write_psi w0 1 1 pmt vid st)) vid us"
    by (auto simp: assms(1))
  have "sink w = sink (snd (write_psi w0 1 1 pmt vid st))
      @ concat (units_packets vid (continuity (snd (write_psi w0 1 1 pmt vid st)) vid) us)"
    by (simp only: us(3) write_units_spec [OF assms(2)])
  also have "sink (snd (write_psi w0 1 1 pmt vid st)) =
      sink w0 @ psi_packet 0 (continuity w0 0) (pat_section 1 1 pmt)
        @ psi_packet pmt (((continuity w0)(0 := continuity w0 0 + 1)) pmt) (pmt_section 1 vid st)"
    by (simp add: write_psi_eq)
  finally show ?thesis
    using us(1,2) by (intro exI [of _ us]) simp
qed

lemma transfer_data_spec_stream_type:
  assumes "write_TS_program_data env = write_psi"
    and "write_ES_as_TS_PES_packet env = write_pes"
    and "transfer_data env es w0 pmt vid st mx vb qt = (err, w, es', n)"
    and "sink w0 = []"
  shows "sink w ! 205 = st"
proof -
  from transfer_data_spec_sink [OF assms(1-3)] obtain rest where
    "sink w = psi_packet 0 (continuity w0 0) (pat_section 1 1 pmt)
        @ psi_packet pmt (((continuity w0)(0 := continuity w0 0 + 1)) pmt) (pmt_section 1 vid st)
        @ rest"
    using assms(4) by auto
  then have "sink w ! 205 =
      psi_packet pmt (((continuity w0)(0 := continuity w0 0 + 1)) pmt) (pmt_section 1 vid st) ! 17"
    by (simp add: nth_append length_psi_packet length_pat_section length_pmt_section)
  then show ?thesis
    by (simp only: pmt_packet_stream_type)
qed

subsection \<open>Runs of the transfer loop without errors\<close>

lemma write_units_append:
  "write_units env w pid (us @ vs) = write_units env (write_units env w pid us) pid vs"
  by (induction us arbitrary: w) simp_all

lemma transfer_loop_to_EOF:
  assumes "\<And>w u. fst (write_ES_unit_as_TS env w u pid) = 0"
    and "upcoming es = map Inr us" and "mx > 0 \<longrightarrow> c + int (length us) < mx"
  shows "transfer_loop env es w pid mx c vb =
     (True, 0, write_units env w pid us, es\<lparr>upcoming := []\<rparr>, c + int (length us))"
proof -
  have "transfer_loop env es w pid mx c vb =
      transfer_loop env (es\<lparr>upcoming := []\<rparr>) (write_units env w pid us) pid mx
        (c + int (length us)) vb"
    using assms by (intro transfer_loop_run) simp_all
  then show ?thesis
    by (simp add: transfer_loop_EOF)
qed

lemma transfer_loop_to_cap:
  assumes ok: "\<And>w u. fst (write_ES_unit_as_TS env w u pid) = 0"
    and up: "upcoming es = map Inr us @ rest"
    and cap: "mx > 0" "c < mx" "int (length us) = mx - c"
  shows "transfer_loop env es w pid mx c vb =
     (True, 0, write_units env w pid us, es\<lparr>upcoming := rest\<rparr>, mx)"
proof -
  from cap have "us \<noteq> []" by auto
  then obtain us' u where us: "us = us' @ [u]"
    by (metis append_butlast_last_id)
  let ?w = "write_units env w pid us'"
  have "transfer_loop env es w pid mx c vb =
      transfer_loop env (es\<lparr>upcoming := Inr u # rest\<rparr>) ?w pid mx (c + int (length us')) vb"
    using up us cap by (intro transfer_loop_run [OF ok]) simp_all
  also have "\<dots> = (True, 0, snd (write_ES_unit_as_TS env ?w u pid), es\<lparr>upcoming := rest\<rparr>, mx)"
    using cap us ok [of ?w u]
    by (subst transfer_loop_unit [of _ u rest]) (auto simp: Let_def split: prod.splits)
  finally show ?thesis
    by (simp add: us write_units_append)
qed

lemma transfer_data_loop:
  assumes "fst (write_TS_program_data env w0 1 1 pmt vid st) = 0"
    and "transfer_loop env es (snd (write_TS_program_data env w0 1 1 pmt vid st)) vid mx 0 vb =
           (True, 0, w, es', n)"
  shows "transfer_data env es w0 pmt vid st mx vb qt = (0, w, es', n)"
proof -
  obtain w1 where psi: "write_TS_program_data env w0 1 1 pmt vid st = (0, w1)"
    using assms(1) by (cases "write_TS_program_data env w0 1 1 pmt vid st") simp
  with assms(2) show ?thesis
    by (simp add: transfer_data_def)
qed

subsection \<open>Concrete command lines\<close>

lemma demo_parse_plain:
  "parse_args env [''in.es'', ''out.ts''] initial_vars =
     Inr (initial_vars\<lparr>input_name := Some ''in.es'', had_input_name := True,
                       output_name := Some ''out.ts'', had_output_name := True\<rparr>)"
  by (simp add: parse_step_def which_switch_def initial_vars_def)

lemma write_ES_unit_as_TS_code:
  "fst (write_ES_unit_as_TS env w u pid) =
     fst (write_ES_as_TS_PES_packet env w (data u) pid DEFAULT_VIDEO_STREAM_ID)"
  by (simp add: write_ES_unit_as_TS_def split: prod.splits)

lemma transfer_data_spec_all:
  assumes "write_TS_program_data env = write_psi"
    and "write_ES_as_TS_PES_packet env = write_pes"
    and "upcoming es = map Inr us" and "mx \<le> 0 \<or> int (length us) < mx"
  shows "transfer_data env es w0 pmt vid st mx vb qt =
     (0, write_units env (snd (write_psi w0 1 1 pmt vid st)) vid us, es\<lparr>upcoming := []\<rparr>,
      int (length us))"
proof -
  have "transfer_loop env es (snd (write_psi w0 1 1 pmt vid st)) vid mx 0 vb =
      (True, 0, write_units env (snd (write_psi w0 1 1 pmt vid st)) vid us, es\<lparr>upcoming := []\<rparr>,
       0 + int (length us))"
    using assms(3,4) by (intro transfer_loop_to_EOF write_unit_spec_ok [OF assms(2)]) auto
  then show ?thesis
    by (intro transfer_data_loop) (simp_all add: assms(1) write_psi_eq)
qed

lemma demo_units:
  "es_units demo_input =
     [\<lparr>data = [0x00, 0x00, 0x01, 0xB3, 0x16, 0x00, 0xF0, 0x15]\<rparr>,
      \<lparr>data = [0x00, 0x00, 0x01, 0x00, 1, 2, 3, 4, 5, 6, 7, 8, 9, 10]\<rparr>]"
  by (simp add: es_units_def demo_input_def build_units.simps)


lemma demo_env_spec:
  "write_TS_program_data (demo_env detect) = write_psi"
  "write_ES_as_TS_PES_packet (demo_env detect) = write_pes"
  "tswrite_open (demo_env detect) how name p q = Some new_TS_writer"
  "tswrite_close (demo_env detect) w q = 0"
  "decide_ES_file_video_type (demo_env detect) = detect"
  "open_elementary_stream (demo_env detect) None = Some (es_of_bytes demo_input)"
  "open_elementary_stream (demo_env detect) (Some ''in.es'') = Some (es_of_bytes demo_input)"
  "open_elementary_stream (demo_env detect) (Some ''empty.es'') = Some (es_of_bytes [])"
  by (simp_all add: demo_env_def spec_env_def demo_files_def)

lemma switch_video_type_cases:
  "switch_video_type kind = Some st \<Longrightarrow>
     kind = VIDEO_H262 \<and> st = 0x02 \<or> kind = VIDEO_H264 \<and> st = 0x1B
     \<or> kind = VIDEO_AVS \<and> st = 0x42"
  by (cases kind)
     (simp_all add: switch_video_type_def MPEG2_VIDEO_STREAM_TYPE_def AVC_VIDEO_STREAM_TYPE_def
        AVS_VIDEO_STREAM_TYPE_def)

lemma parse_args_not_empty:
  "parse_args env args initial_vars = Inr v \<Longrightarrow>
     use_stdin v \<or> had_input_name v \<or> force_stream_type v \<Longrightarrow> args \<noteq> []"
  by (auto simp: initial_vars_def)

lemma demo_parse_stdin:
  "parse_args env [''-stdin'', ''out.ts''] initial_vars =
     Inr (initial_vars\<lparr>had_input_name := True, use_stdin := True,
                       output_name := Some ''out.ts'', had_output_name := True\<rparr>)"
  by (simp add: parse_step_def which_switch_def initial_vars_def)

lemma demo_stdin_run:
  "es2ts_main (demo_env detect) [''-stdin'', ''out.ts''] =
     \<lparr>exit_code = 0,
      calls = [Call_open_elementary_stream None,
               Call_tswrite_open TS_W_FILE (Some ''out.ts'') 0,
               Call_transfer_data 0x66 0x68 0x02 0,
               Call_close_elementary_stream, Call_tswrite_close],
      final_output = Some (write_units (demo_env detect)
        (snd (write_psi new_TS_writer 1 1 0x66 0x68 0x02)) 0x68 (es_units demo_input))\<rparr>"
proof -
  let ?v = "initial_vars\<lparr>had_input_name := True, use_stdin := True,
                       output_name := Some ''out.ts'', had_output_name := True\<rparr>"
  have "transfer_data (demo_env detect) (es_of_bytes demo_input) new_TS_writer 0x66 0x68 0x02 0
      False False =
      (0, write_units (demo_env detect) (snd (write_psi new_TS_writer 1 1 0x66 0x68 0x02)) 0x68
            (es_units demo_input), (es_of_bytes demo_input)\<lparr>upcoming := []\<rparr>,
       int (length (es_units demo_input)))"
    by (rule transfer_data_spec_all) (simp_all add: demo_env_spec es_of_bytes_def)
  then have "run_es2ts (demo_env detect) ?v =
     \<lparr>exit_code = 0,
      calls = [Call_open_elementary_stream None,
               Call_tswrite_open TS_W_FILE (Some ''out.ts'') 0,
               Call_transfer_data 0x66 0x68 0x02 0,
               Call_close_elementary_stream, Call_tswrite_close],
      final_output = Some (write_units (demo_env detect)
        (snd (write_psi new_TS_writer 1 1 0x66 0x68 0x02)) 0x68 (es_units demo_input))\<rparr>"
    by (subst run_es2ts_transfer [where es = "es_of_bytes demo_input" and kind = VIDEO_H262
          and st = "0x02" and ?w0.0 = new_TS_writer and err = 0
          and w = "write_units (demo_env detect)
            (snd (write_psi new_TS_writer 1 1 0x66 0x68 0x02)) 0x68 (es_units demo_input)"
          and es' = "(es_of_bytes demo_input)\<lparr>upcoming := []\<rparr>"
          and n = "int (length (es_units demo_input))"])
       (simp_all add: initial_vars_def demo_env_spec switch_video_type_def
          MPEG2_VIDEO_STREAM_TYPE_def)
  then show ?thesis
    by (simp add: es2ts_main_parsed [OF _ demo_parse_stdin])
qed












section \<open>The claims\<close>

subsection \<open>The stream type in the PMT\<close>



subsection \<open>The cap on the number of units\<close>

text \<open>
  C4.  Let the program data be written without error, let no write of a unit fail,
  and let the reader deliver the units \<open>us\<close> before anything else (\<open>rest\<close>).  With a cap
  \<open>mx\<close> that is positive and at most the number of these units, \<open>transfer_data\<close> returns
  0 with the count \<open>mx\<close>: the writer is the one after the PAT and PMT and after exactly
  the first \<open>mx\<close> units, written in order, and the other units are still unread.  With
  no cap (\<open>mx \<le> 0\<close>, 0 being the value when \<open>-max\<close> is not given) or a cap above the
  number of units, and \<open>EOF\<close> after \<open>us\<close>, it returns 0 after writing all the units.
\<close>

theorem max_units_cap:
  assumes psi: "fst (write_TS_program_data env w0 1 1 pmt vid st) = 0"
    and wr: "\<And>w (u :: ES_unit).
               fst (write_ES_as_TS_PES_packet env w (data u) vid DEFAULT_VIDEO_STREAM_ID) = 0"
    and up: "upcoming es = map Inr us @ rest"
  shows "(0 < mx \<and> mx \<le> int (length us) \<longrightarrow>
            transfer_data env es w0 pmt vid st mx vb qt =
              (0, write_units env (snd (write_TS_program_data env w0 1 1 pmt vid st)) vid
                    (take (nat mx) us),
               es\<lparr>upcoming := map Inr (drop (nat mx) us) @ rest\<rparr>, mx))
     \<and> (rest = [] \<and> (mx \<le> 0 \<or> int (length us) < mx) \<longrightarrow>
            transfer_data env es w0 pmt vid st mx vb qt =
              (0, write_units env (snd (write_TS_program_data env w0 1 1 pmt vid st)) vid us,
               es\<lparr>upcoming := []\<rparr>, int (length us)))"
proof (intro conjI impI)
  let ?w1 = "snd (write_TS_program_data env w0 1 1 pmt vid st)"
  have ok: "fst (write_ES_unit_as_TS env w u vid) = 0" for w u
    by (simp add: write_ES_unit_as_TS_code wr)
  {
    assume cap: "0 < mx \<and> mx \<le> int (length us)"
    have "upcoming es = map Inr (take (nat mx) us) @ (map Inr (drop (nat mx) us) @ rest)"
      by (simp add: up flip: map_append)
    moreover have "int (length (take (nat mx) us)) = mx - 0"
      using cap by (auto simp: min_def)
    ultimately have "transfer_loop env es ?w1 vid mx 0 vb =
        (True, 0, write_units env ?w1 vid (take (nat mx) us),
         es\<lparr>upcoming := map Inr (drop (nat mx) us) @ rest\<rparr>, mx)"
      using cap by (intro transfer_loop_to_cap [OF ok]) simp_all
    with psi show "transfer_data env es w0 pmt vid st mx vb qt =
        (0, write_units env ?w1 vid (take (nat mx) us),
         es\<lparr>upcoming := map Inr (drop (nat mx) us) @ rest\<rparr>, mx)"
      by (rule transfer_data_loop)
  }
  {
    assume all: "rest = [] \<and> (mx \<le> 0 \<or> int (length us) < mx)"
    then have "transfer_loop env es ?w1 vid mx 0 vb =
        (True, 0, write_units env ?w1 vid us, es\<lparr>upcoming := []\<rparr>, 0 + int (length us))"
      using up by (intro transfer_loop_to_EOF [OF ok]) auto
    with psi show "transfer_data env es w0 pmt vid st mx vb qt =
        (0, write_units env ?w1 vid us, es\<lparr>upcoming := []\<rparr>, int (length us))"
      by (intro transfer_data_loop) simp_all
  }
qed

theorem max_units_cap_witness:
  "transfer_data (demo_env (\<lambda>es vb. None)) (es_of_bytes demo_input) new_TS_writer
       0x66 0x68 0x02 1 False False =
     (0, write_units (demo_env (\<lambda>es vb. None)) (snd (write_psi new_TS_writer 1 1 0x66 0x68 0x02))
           0x68 [\<lparr>data = [0x00, 0x00, 0x01, 0xB3, 0x16, 0x00, 0xF0, 0x15]\<rparr>],
      \<lparr>upcoming = [Inr \<lparr>data = [0x00, 0x00, 0x01, 0x00, 1, 2, 3, 4, 5, 6, 7, 8, 9, 10]\<rparr>]\<rparr>, 1)
   \<and> transfer_data (demo_env (\<lambda>es vb. None)) (es_of_bytes demo_input) new_TS_writer
       0x66 0x68 0x02 0 False False =
     (0, write_units (demo_env (\<lambda>es vb. None)) (snd (write_psi new_TS_writer 1 1 0x66 0x68 0x02))
           0x68 [\<lparr>data = [0x00, 0x00, 0x01, 0xB3, 0x16, 0x00, 0xF0, 0x15]\<rparr>,
                 \<lparr>data = [0x00, 0x00, 0x01, 0x00, 1, 2, 3, 4, 5, 6, 7, 8, 9, 10]\<rparr>],
      \<lparr>upcoming = []\<rparr>, 2)"
proof -
  let ?E = "demo_env (\<lambda>es vb. None)"
  let ?us = "[\<lparr>data = [0x00, 0x00, 0x01, 0xB3, 0x16, 0x00, 0xF0, 0x15 :: byte]\<rparr>,
              \<lparr>data = [0x00, 0x00, 0x01, 0x00, 1, 2, 3, 4, 5, 6, 7, 8, 9, 10]\<rparr>]"
  have psi: "fst (write_TS_program_data ?E new_TS_writer 1 1 0x66 0x68 0x02) = 0"
    by (simp add: demo_env_spec write_psi_eq)
  have wr: "fst (write_ES_as_TS_PES_packet ?E w (data u) 0x68 DEFAULT_VIDEO_STREAM_ID) = 0"
    for w and u :: ES_unit
    by (simp add: demo_env_spec write_pes_def)
  have up: "upcoming (es_of_bytes demo_input) = map Inr ?us @ []"
    by (simp add: es_of_bytes_def demo_units)
  show ?thesis
    using max_units_cap [OF psi wr up, of 1 False False]
      max_units_cap [OF psi wr up, of 0 False False]
    by (simp add: demo_env_spec es_of_bytes_def)
qed

subsection \<open>Standard input without a forced type\<close>

text \<open>
  C5.  When the command line is accepted with \<open>-stdin\<close> in force and no switch forcing
  the video type, the video type is still the default \<open>VIDEO_H262\<close>, \<open>main\<close> never calls
  the type detection, and if it calls \<open>transfer_data\<close> at all, it passes the stream type
  \<open>0x02\<close>.  With the writer of the specification, on an output that opens empty, the
  byte of the stream type in the PMT (byte 12 of the section, byte 205 of the output)
  is \<open>0x02\<close>.
\<close>

theorem stdin_without_force_is_h262:
  assumes parse: "parse_args env args initial_vars = Inr v"
    and stdin: "use_stdin v" and unforced: "\<not> force_stream_type v"
  shows "video_type v = VIDEO_H262
     \<and> Call_decide_ES_file_video_type \<notin> set (calls (es2ts_main env args))
     \<and> (\<forall>pmt pid st mx.
           Call_transfer_data pmt pid st mx \<in> set (calls (es2ts_main env args)) \<longrightarrow> st = 0x02)
     \<and> (write_TS_program_data env = write_psi \<and> write_ES_as_TS_PES_packet env = write_pes
          \<and> (\<forall>how name p q w0. tswrite_open env how name p q = Some w0 \<longrightarrow> sink w0 = []) \<longrightarrow>
        (\<forall>w. final_output (es2ts_main env args) = Some w \<longrightarrow> sink w ! 205 = 0x02))"
proof -
  have h262: "video_type v = VIDEO_H262"
    using parse_args_unforced [OF parse unforced] by (simp add: initial_vars_def)
  have args: "args \<noteq> []"
    using parse stdin by (rule parse_args_not_empty [OF _ disjI1])
  have main: "es2ts_main env args = run_es2ts env v"
    using args parse by (rule es2ts_main_parsed)
  have no_decide: "Call_decide_ES_file_video_type \<notin> set (calls (es2ts_main env args))"
    using stdin by (simp add: main run_es2ts_no_decide)
  have reached: "st = 0x02 \<and> (write_TS_program_data env = write_psi
        \<and> write_ES_as_TS_PES_packet env = write_pes
        \<and> (\<forall>how name p q w0. tswrite_open env how name p q = Some w0 \<longrightarrow> sink w0 = [])
        \<longrightarrow> sink w ! 205 = 0x02)"
    if out: "final_output (run_es2ts env v) = Some w"
      and call: "Call_transfer_data pmt pid st mx \<in> set (calls (run_es2ts env v))
                 \<or> st = 0x02"
    for w pmt pid st mx
  proof -
    from out obtain es kind st' w0 err es' n where
      facts: "had_input_name v" "had_output_name v"
        "open_elementary_stream env (if use_stdin v then None else input_name v) = Some es"
        "(if force_stream_type v \<or> use_stdin v then Some (video_type v)
          else decide_ES_file_video_type env es (verbose v \<and> \<not> use_stdout v)) = Some kind"
        "switch_video_type kind = Some st'"
        "(if use_stdout v then tswrite_open env TS_W_STDOUT None 0 True
          else if use_tcpip v then tswrite_open env TS_W_TCP (output_name v) (port v) (quiet v)
          else tswrite_open env TS_W_FILE (output_name v) 0 (quiet v)) = Some w0"
        "transfer_data env es w0 (pmt_pid v) (video_pid v) st' (max2 v)
           (verbose v \<and> \<not> use_stdout v) (quiet v \<or> use_stdout v) = (err, w, es', n)"
      by (rule run_es2ts_output)
    from facts(4,5) stdin h262 have st': "st' = 0x02"
      by (auto dest: switch_video_type_cases)
    have calls: "Call_transfer_data pmt pid st mx \<in> set (calls (run_es2ts env v))
        \<Longrightarrow> st = st'"
      by (simp add: run_es2ts_transfer [OF facts] split: if_splits)
    have "sink w ! 205 = st'"
      if "write_TS_program_data env = write_psi" "write_ES_as_TS_PES_packet env = write_pes"
        "\<forall>how name p q w0. tswrite_open env how name p q = Some w0 \<longrightarrow> sink w0 = []"
    proof -
      from that(3) facts(6) have "sink w0 = []"
        by (auto split: if_splits)
      with that(1,2) facts(7) show ?thesis
        by (rule transfer_data_spec_stream_type)
    qed
    with call calls st' show ?thesis by auto
  qed
  have "st = 0x02"
    if "Call_transfer_data pmt pid st mx \<in> set (calls (es2ts_main env args))" for pmt pid st mx
  proof -
    from that obtain w where "final_output (run_es2ts env v) = Some w"
      unfolding main by (blast dest: run_es2ts_transfer_called)
    with that reached [of w pmt pid st mx] show ?thesis
      by (simp add: main)
  qed
  moreover have "sink w ! 205 = 0x02"
    if "final_output (es2ts_main env args) = Some w"
      "write_TS_program_data env = write_psi \<and> write_ES_as_TS_PES_packet env = write_pes
        \<and> (\<forall>how name p q w0. tswrite_open env how name p q = Some w0 \<longrightarrow> sink w0 = [])" for w
    using that reached [of w 0 0 "0x02" 0] by (simp add: main)
  ultimately show ?thesis
    using h262 no_decide by blast
qed

theorem stdin_without_force_is_h262_witness:
  "Call_decide_ES_file_video_type
     \<notin> set (calls (es2ts_main (demo_env (\<lambda>es vb. Some VIDEO_H264)) [''-stdin'', ''out.ts'']))
   \<and> Call_transfer_data 0x66 0x68 0x02 0
     \<in> set (calls (es2ts_main (demo_env (\<lambda>es vb. Some VIDEO_H264)) [''-stdin'', ''out.ts'']))
   \<and> (\<exists>w. final_output (es2ts_main (demo_env (\<lambda>es vb. Some VIDEO_H264))
               [''-stdin'', ''out.ts'']) = Some w \<and> sink w ! 205 = 0x02)"
proof -
  let ?E = "demo_env (\<lambda>es vb. Some VIDEO_H264)"
  let ?v = "initial_vars\<lparr>had_input_name := True, use_stdin := True,
                       output_name := Some ''out.ts'', had_output_name := True\<rparr>"
  have "use_stdin ?v" "\<not> force_stream_type ?v"
    by (simp_all add: initial_vars_def)
  from stdin_without_force_is_h262 [OF demo_parse_stdin this, of ?E]
  have "Call_decide_ES_file_video_type \<notin> set (calls (es2ts_main ?E [''-stdin'', ''out.ts'']))"
    and "\<forall>w. final_output (es2ts_main ?E [''-stdin'', ''out.ts'']) = Some w \<longrightarrow>
           sink w ! 205 = 0x02"
    by (simp_all add: demo_env_spec new_TS_writer_def)
  then show ?thesis
    by (simp add: demo_stdin_run)
qed

subsection \<open>An unknown video type\<close>

text \<open>
  C6.  When the command line is accepted and names input and output, no switch
  forces the video type, the input is a file that opens, and the type detection
  answers \<open>VIDEO_UNKNOWN\<close>, then \<open>main\<close> returns 1 after exactly three calls: it opens the
  input, asks for the type and closes the input.  The output is never opened and no
  byte of transport stream is written.
\<close>

theorem unknown_video_type_fails_before_output:
  assumes "args \<noteq> []" and "parse_args env args initial_vars = Inr v"
    and "had_input_name v" and "had_output_name v"
    and "\<not> force_stream_type v" and "\<not> use_stdin v"
    and "open_elementary_stream env (input_name v) = Some es"
    and "decide_ES_file_video_type env es (verbose v \<and> \<not> use_stdout v) = Some VIDEO_UNKNOWN"
  shows "es2ts_main env args =
     \<lparr>exit_code = 1,
      calls = [Call_open_elementary_stream (input_name v), Call_decide_ES_file_video_type,
               Call_close_elementary_stream],
      final_output = None\<rparr>"
proof -
  have "run_es2ts env v =
     \<lparr>exit_code = 1,
      calls = [Call_open_elementary_stream (input_name v), Call_decide_ES_file_video_type,
               Call_close_elementary_stream],
      final_output = None\<rparr>"
    using assms(3-8)
    by (cases "use_stdout v") (simp_all add: run_es2ts_def Let_def switch_video_type_def)
  with assms(1,2) show ?thesis
    by (simp add: es2ts_main_parsed)
qed

theorem unknown_video_type_fails_before_output_witness:
  "es2ts_main (demo_env (\<lambda>es vb. Some VIDEO_UNKNOWN)) [''in.es'', ''out.ts''] =
     \<lparr>exit_code = 1,
      calls = [Call_open_elementary_stream (Some ''in.es''), Call_decide_ES_file_video_type,
               Call_close_elementary_stream],
      final_output = None\<rparr>"
  using unknown_video_type_fails_before_output
    [of "[''in.es'', ''out.ts'']" "demo_env (\<lambda>es vb. Some VIDEO_UNKNOWN)"
        "initial_vars\<lparr>input_name := Some ''in.es'', had_input_name := True,
                       output_name := Some ''out.ts'', had_output_name := True\<rparr>"
        "es_of_bytes demo_input", OF _ demo_parse_plain]
  by (simp add: initial_vars_def demo_env_def spec_env_def demo_files_def)

subsection \<open>An input without units\<close>



subsection \<open>The PIDs are not validated\<close>




subsection \<open>Redirection of the printing functions\<close>

text \<open>
  C10.  For every call of \<open>redirect_output\<close>: if one of the five function pointers is
  null the call returns 1 and the installed table is the table \<open>tbl\<close> it started from;
  otherwise it returns 0 and the installed table holds exactly the five functions
  given, whatever the table held before.
\<close>

theorem redirect_output_atomic:
  "(m = None \<or> e = None \<or> fm = None \<or> fe = None \<or> fl = None \<longrightarrow>
      redirect_output tbl m e fm fe fl = (1, tbl))
   \<and> (m \<noteq> None \<and> e \<noteq> None \<and> fm \<noteq> None \<and> fe \<noteq> None \<and> fl \<noteq> None \<longrightarrow>
      redirect_output tbl m e fm fe fl =
        (0, \<lparr>print_message_fn = m, print_error_fn = e, fprint_message_fn = fm,
             fprint_error_fn = fe, flush_message_fn = fl\<rparr>))"
  by (cases tbl) (simp add: redirect_output_def)

theorem redirect_output_atomic_witness:
  "redirect_output initial_fns (Some (user_message_fn 1)) None (Some (user_format_fn 1))
       (Some (user_format_fn 2)) (Some (user_flush_fn 1)) = (1, initial_fns)
   \<and> redirect_output (redirect_output_stderr initial_fns) (Some (user_message_fn 1))
       (Some (user_message_fn 2)) (Some (user_format_fn 1)) (Some (user_format_fn 2))
       (Some (user_flush_fn 1)) =
      (0, \<lparr>print_message_fn = Some (user_message_fn 1),
           print_error_fn = Some (user_message_fn 2),
           fprint_message_fn = Some (user_format_fn 1),
           fprint_error_fn = Some (user_format_fn 2),
           flush_message_fn = Some (user_flush_fn 1)\<rparr>)"
  using redirect_output_atomic [of "Some (user_message_fn 1)" None "Some (user_format_fn 1)"
      "Some (user_format_fn 2)" "Some (user_flush_fn 1)" initial_fns]
    redirect_output_atomic [of "Some (user_message_fn 1)" "Some (user_message_fn 2)"
      "Some (user_format_fn 1)" "Some (user_format_fn 2)" "Some (user_flush_fn 1)"
      "redirect_output_stderr initial_fns"]
  by simp

end
